theory Spec2Isabelle
  imports Main "HOL-Library.Multiset" "HOL-Library.Monad_Syntax"
begin

section \<open>Data model\<close>

text \<open>
  Timestamps (\<open>TIMESTAMPTZ\<close> columns, ISO strings on the wire) are modelled as integers:
  an instant on the time line, compared as the database compares them.
\<close>

type_synonym timestamp = int

text \<open>The type \<open>ApiKey\<close> of \<open>lib/supabase.ts\<close>, one row of the table \<open>api_keys\<close>.\<close>

record api_key =
  id_key :: string
  name :: string
  secret :: string
  status :: string
  scopes :: "string list"
  created_at :: timestamp
  last_used :: "timestamp option"
  environment :: string
  updated_at :: timestamp

text \<open>\<open>ApiKeyInsert = Omit<ApiKey, "id" | "created_at" | "updated_at">\<close>.\<close>

record api_key_insert =
  ins_name :: string
  ins_secret :: string
  ins_status :: string
  ins_scopes :: "string list"
  ins_last_used :: "timestamp option"
  ins_environment :: string

text \<open>
  A parsed JSON value, as \<open>request.json()\<close> returns it. Numbers are kept as integers:
  the handlers only ever test a number for being zero.
\<close>

datatype json =
  JNull
  | JBool bool
  | JNum int
  | JStr string
  | JArr "json list"
  | JObj "(string \<times> json) list"

text \<open>What a route handler sends back: the HTTP status and the JSON body.\<close>

datatype body =
  Data_keys "api_key list"
  | Data_key api_key
  | Error_body string "string option"
  | No_content

record response =
  code :: nat
  body :: body

section \<open>The table store\<close>

text \<open>
  The hosted table is a list of rows in insertion order, together with a log of the calls
  made to it. The client library is not part of the repository; what is modelled of it is
  the query builder the handlers use (\<open>select\<close>, \<open>order\<close>, \<open>eq\<close>, \<open>insert\<close>) and
  the table constraints of \<open>supabase-schema.sql\<close>. A call either fails with the store's
  error message or yields its rows.
\<close>

datatype store_call = Call_select | Call_insert | Call_update | Call_delete

record store =
  rows :: "api_key list"
  calls :: "store_call list"

text \<open>
  What a call reads from its surroundings: whether the store can be reached (a message
  when it cannot), the value of \<open>NOW()\<close> and the value of \<open>gen_random_uuid()\<close>.
\<close>

record db_env =
  db_fault :: "string option"
  db_now :: timestamp
  db_uuid :: string

record query =
  order_by_created_at_desc :: bool
  eq_filters :: "(string \<times> string) list"

definition select_all :: query where
  "select_all = \<lparr>order_by_created_at_desc = False, eq_filters = []\<rparr>"

definition order_created_at_desc :: "query \<Rightarrow> query" where
  "order_created_at_desc q = q\<lparr>order_by_created_at_desc := True\<rparr>"

definition eq :: "string \<Rightarrow> string \<Rightarrow> query \<Rightarrow> query" where
  "eq column v q = q\<lparr>eq_filters := eq_filters q @ [(column, v)]\<rparr>"

definition text_column :: "string \<Rightarrow> (api_key \<Rightarrow> string) option" where
  "text_column column =
     (if column = ''id'' then Some id_key
      else if column = ''name'' then Some name
      else if column = ''secret'' then Some secret
      else if column = ''status'' then Some status
      else if column = ''environment'' then Some environment
      else None)"

fun row_matches :: "(string \<times> string) list \<Rightarrow> api_key \<Rightarrow> bool" where
  "row_matches [] k = True"
| "row_matches ((column, v) # fs) k =
     ((case text_column column of None \<Rightarrow> False | Some col \<Rightarrow> col k = v) \<and> row_matches fs k)"

text \<open>
  \<open>ORDER BY created_at DESC\<close>: the order of rows with equal \<open>created_at\<close> is left open by
  the database; the model keeps them in table order.
\<close>

definition newest_first :: "api_key list \<Rightarrow> api_key list" where
  "newest_first ks = sort_key (\<lambda>k. - created_at k) ks"

definition run_query :: "db_env \<Rightarrow> store \<Rightarrow> query \<Rightarrow> (string + api_key list) \<times> store" where
  "run_query e st q =
     (let st' = st\<lparr>calls := calls st @ [Call_select]\<rparr>
      in case db_fault e of
           Some msg \<Rightarrow> (Inl msg, st')
         | None \<Rightarrow>
             if list_ex (\<lambda>f. text_column (fst f) = None) (eq_filters q)
             then (Inl ''column does not exist'', st')
             else let hits = filter (row_matches (eq_filters q)) (rows st)
                  in (Inr (if order_by_created_at_desc q then newest_first hits else hits), st'))"

text \<open>
  \<open>insert([row]).select().single()\<close>. The row object is decoded against the column types
  (no implicit casts are modelled: a text column takes a JSON string, \<open>TEXT[]\<close> an array
  of strings); a column the object leaves out takes its default, and \<open>NOT NULL\<close>, the two
  \<open>CHECK\<close>s, \<open>UNIQUE (secret)\<close> and the primary key are enforced.
\<close>

fun property :: "json \<Rightarrow> string \<Rightarrow> json option" where
  "property (JObj kvs) n = map_of (rev kvs) n"
| "property v n = None"

fun as_text :: "json \<Rightarrow> string option" where
  "as_text (JStr s) = Some s"
| "as_text v = None"

fun as_text_array :: "json \<Rightarrow> string list option" where
  "as_text_array (JArr vs) = those (map as_text vs)"
| "as_text_array v = None"

fun as_timestamp :: "json \<Rightarrow> timestamp option option" where
  "as_timestamp JNull = Some None"
| "as_timestamp (JNum t) = Some (Some t)"
| "as_timestamp v = None"

definition decode_insert :: "json \<Rightarrow> api_key_insert option" where
  "decode_insert row = do {
     n \<leftarrow> Option.bind (property row ''name'') as_text;
     s \<leftarrow> Option.bind (property row ''secret'') as_text;
     st \<leftarrow> Option.bind (property row ''status'') as_text;
     sc \<leftarrow> (case property row ''scopes'' of None \<Rightarrow> Some [] | Some v \<Rightarrow> as_text_array v);
     lu \<leftarrow> (case property row ''last_used'' of None \<Rightarrow> Some None | Some v \<Rightarrow> as_timestamp v);
     en \<leftarrow> Option.bind (property row ''environment'') as_text;
     Some \<lparr>ins_name = n, ins_secret = s, ins_status = st, ins_scopes = sc,
           ins_last_used = lu, ins_environment = en\<rparr>
   }"

definition status_check :: "string \<Rightarrow> bool" where
  "status_check s = (s = ''active'' \<or> s = ''revoked'')"

definition environment_check :: "string \<Rightarrow> bool" where
  "environment_check en = (en = ''production'' \<or> en = ''staging'' \<or> en = ''development'')"

definition insert_single :: "db_env \<Rightarrow> store \<Rightarrow> json \<Rightarrow> (string + api_key) \<times> store" where
  "insert_single e st row =
     (let st' = st\<lparr>calls := calls st @ [Call_insert]\<rparr>
      in case db_fault e of
           Some msg \<Rightarrow> (Inl msg, st')
         | None \<Rightarrow>
             (case decode_insert row of
                None \<Rightarrow> (Inl ''invalid input for table api_keys'', st')
              | Some i \<Rightarrow>
                  if \<not> status_check (ins_status i) \<or> \<not> environment_check (ins_environment i)
                  then (Inl ''violates check constraint'', st')
                  else if ins_secret i \<in> set (map secret (rows st))
                       \<or> db_uuid e \<in> set (map id_key (rows st))
                  then (Inl ''duplicate key value violates unique constraint'', st')
                  else let k = \<lparr>id_key = db_uuid e, name = ins_name i, secret = ins_secret i,
                                 status = ins_status i, scopes = ins_scopes i,
                                 created_at = db_now e, last_used = ins_last_used i,
                                 environment = ins_environment i, updated_at = db_now e\<rparr>
                       in (Inr k, st'\<lparr>rows := rows st @ [k]\<rparr>)))"

section \<open>Route \<open>/api/keys\<close>: GET\<close>

text \<open>\<open>URLSearchParams.get\<close>: the value of the first pair with that name, or null.\<close>

fun searchParams_get :: "(string \<times> string) list \<Rightarrow> string \<Rightarrow> string option" where
  "searchParams_get [] n = None"
| "searchParams_get ((k, v) # ps) n = (if k = n then Some v else searchParams_get ps n)"

text \<open>JavaScript truthiness of a \<open>string | null\<close>.\<close>

fun truthy_string :: "string option \<Rightarrow> bool" where
  "truthy_string None = False"
| "truthy_string (Some s) = (s \<noteq> [])"

text \<open>
  Nothing in the handler's \<open>try\<close> block throws in this model (the client library reports a
  failure in \<open>error\<close>), so its \<open>catch\<close> branch has no counterpart here.
\<close>

definition GET :: "db_env \<Rightarrow> store \<Rightarrow> (string \<times> string) list \<Rightarrow> response \<times> store" where
  "GET e st searchParams =
     (let status_p = searchParams_get searchParams ''status'';
          environment_p = searchParams_get searchParams ''environment'';
          query0 = order_created_at_desc select_all;
          query1 = (case status_p of
                      Some s \<Rightarrow> if truthy_string status_p \<and> s \<noteq> ''all''
                                then eq ''status'' s query0 else query0
                    | None \<Rightarrow> query0);
          query2 = (case environment_p of
                      Some en \<Rightarrow> if truthy_string environment_p \<and> en \<noteq> ''all''
                                 then eq ''environment'' en query1 else query1
                    | None \<Rightarrow> query1)
      in case run_query e st query2 of
           (Inl message, st') \<Rightarrow>
             (\<lparr>code = 500, body = Error_body ''Failed to fetch API keys'' (Some message)\<rparr>, st')
         | (Inr data, st') \<Rightarrow> (\<lparr>code = 200, body = Data_keys data\<rparr>, st'))"

section \<open>Route \<open>/api/keys\<close>: POST\<close>

text \<open>JavaScript truthiness of a destructured field; \<open>None\<close> is \<open>undefined\<close>.\<close>

fun truthy :: "json option \<Rightarrow> bool" where
  "truthy None = False"
| "truthy (Some JNull) = False"
| "truthy (Some (JBool b)) = b"
| "truthy (Some (JNum n)) = (n \<noteq> 0)"
| "truthy (Some (JStr s)) = (s \<noteq> [])"
| "truthy (Some (JArr vs)) = True"
| "truthy (Some (JObj kvs)) = True"

definition internal_server_error :: response where
  "internal_server_error = \<lparr>code = 500, body = Error_body ''Internal server error'' None\<rparr>"

text \<open>
  An object literal as it is serialised for the store: a property whose value is
  \<open>undefined\<close> is left out.
\<close>

definition object :: "(string \<times> json option) list \<Rightarrow> json" where
  "object ps = JObj (List.map_filter (\<lambda>p. map_option (Pair (fst p)) (snd p)) ps)"

text \<open>
  The request body is \<open>None\<close> when it is not JSON: \<open>request.json()\<close> throws, and so does
  destructuring the value \<open>null\<close>; both end in the handler's \<open>catch\<close>.
\<close>

definition POST :: "db_env \<Rightarrow> store \<Rightarrow> json option \<Rightarrow> response \<times> store" where
  "POST e st request_body =
     (case request_body of
        None \<Rightarrow> (internal_server_error, st)
      | Some JNull \<Rightarrow> (internal_server_error, st)
      | Some b \<Rightarrow>
          (let name_v = property b ''name'';
               secret_v = property b ''secret'';
               scopes_v = property b ''scopes'';
               environment_v = property b ''environment''
           in if \<not> truthy name_v \<or> \<not> truthy secret_v
                 \<or> \<not> truthy scopes_v \<or> \<not> truthy environment_v
              then (\<lparr>code = 400, body = Error_body
                      ''Missing required fields: name, secret, scopes, environment'' None\<rparr>, st)
              else
                (case insert_single e st
                        (object [(''name'', name_v), (''secret'', secret_v),
                                 (''status'', Some (JStr ''active'')), (''scopes'', scopes_v),
                                 (''environment'', environment_v), (''last_used'', Some JNull)]) of
                   (Inl message, st') \<Rightarrow>
                     (\<lparr>code = 500, body = Error_body ''Failed to create API key''
                                                    (Some message)\<rparr>, st')
                 | (Inr data, st') \<Rightarrow> (\<lparr>code = 201, body = Data_key data\<rparr>, st'))))"

text \<open>The row object the handler hands to \<open>insert\<close>, as a function of the request body.\<close>

definition POST_row :: "json \<Rightarrow> json" where
  "POST_row b = object [(''name'', property b ''name''), (''secret'', property b ''secret''),
                        (''status'', Some (JStr ''active'')), (''scopes'', property b ''scopes''),
                        (''environment'', property b ''environment''),
                        (''last_used'', Some JNull)]"

section \<open>Route \<open>/api/keys/[id]\<close>: PATCH and DELETE\<close>

text \<open>
  \<open>ApiKeyUpdate = Partial<Omit<ApiKey, "id" | "created_at" | "updated_at">>\<close>: a field
  is \<open>None\<close> when the patch leaves it out.
\<close>

record api_key_update =
  upd_name :: "string option"
  upd_secret :: "string option"
  upd_status :: "string option"
  upd_scopes :: "string list option"
  upd_last_used :: "timestamp option option"
  upd_environment :: "string option"

definition no_update :: api_key_update where
  "no_update = \<lparr>upd_name = None, upd_secret = None, upd_status = None, upd_scopes = None,
                 upd_last_used = None, upd_environment = None\<rparr>"

definition apply_update :: "api_key_update \<Rightarrow> api_key \<Rightarrow> api_key" where
  "apply_update u k =
     k\<lparr>name := (case upd_name u of None \<Rightarrow> name k | Some v \<Rightarrow> v),
       secret := (case upd_secret u of None \<Rightarrow> secret k | Some v \<Rightarrow> v),
       status := (case upd_status u of None \<Rightarrow> status k | Some v \<Rightarrow> v),
       scopes := (case upd_scopes u of None \<Rightarrow> scopes k | Some v \<Rightarrow> v),
       last_used := (case upd_last_used u of None \<Rightarrow> last_used k | Some v \<Rightarrow> v),
       environment := (case upd_environment u of None \<Rightarrow> environment k | Some v \<Rightarrow> v)\<rparr>"

text \<open>
  An \<open>UPDATE ... WHERE id = ...\<close> on the table: the trigger
  \<open>update_api_keys_updated_at\<close> of \<open>supabase-schema.sql\<close> sets \<open>updated_at\<close> to
  \<open>NOW()\<close> on every row the statement updates; the constraints are those of the table.
  The result is the updated row, or \<open>None\<close> when no row has that id.
\<close>

definition update_updated_at_column :: "db_env \<Rightarrow> api_key \<Rightarrow> api_key" where
  "update_updated_at_column e new = new\<lparr>updated_at := db_now e\<rparr>"

definition update_by_id ::
  "db_env \<Rightarrow> store \<Rightarrow> string \<Rightarrow> api_key_update \<Rightarrow> (string + api_key option) \<times> store" where
  "update_by_id e st i u =
     (let st' = st\<lparr>calls := calls st @ [Call_update]\<rparr>
      in case db_fault e of
           Some msg \<Rightarrow> (Inl msg, st')
         | None \<Rightarrow>
             (case find (\<lambda>k. id_key k = i) (rows st) of
                None \<Rightarrow> (Inr None, st')
              | Some k \<Rightarrow>
                  let k' = update_updated_at_column e (apply_update u k)
                  in if \<not> status_check (status k') \<or> \<not> environment_check (environment k')
                     then (Inl ''violates check constraint'', st')
                     else if secret k' \<in> set (map secret (filter (\<lambda>r. id_key r \<noteq> i) (rows st)))
                     then (Inl ''duplicate key value violates unique constraint'', st')
                     else (Inr (Some k'),
                           st'\<lparr>rows := map (\<lambda>r. if id_key r = i
                                                 then update_updated_at_column e (apply_update u r)
                                                 else r) (rows st)\<rparr>)))"

definition delete_by_id :: "db_env \<Rightarrow> store \<Rightarrow> string \<Rightarrow> (string + bool) \<times> store" where
  "delete_by_id e st i =
     (let st' = st\<lparr>calls := calls st @ [Call_delete]\<rparr>
      in case db_fault e of
           Some msg \<Rightarrow> (Inl msg, st')
         | None \<Rightarrow>
             if i \<in> set (map id_key (rows st))
             then (Inr True, st'\<lparr>rows := filter (\<lambda>k. id_key k \<noteq> i) (rows st)\<rparr>)
             else (Inr False, st'))"

text \<open>
  Modelled from the spec: the \<open>PATCH\<close> handler of the route \<open>/api/keys/[id]\<close>, whose file
  is not among the sources. The spec: ``\<open>PATCH /keys/{id}\<close> with body = any subset of
  mutable fields \<open>\<rightarrow> 200 {data: ApiKeyRecord}\<close>; \<open>404\<close>/\<open>500\<close> on failure'', and for
  \<open>update\<close>: ``any subset of {name, secret, status, scopes, environment, last_used} may be
  patched; \<open>updated_at\<close> is always refreshed by the store. Fails with \<open>NotFoundError\<close> if
  id does not exist, \<open>StoreError\<close> otherwise.''
\<close>

definition PATCH_id :: "db_env \<Rightarrow> store \<Rightarrow> string \<Rightarrow> api_key_update \<Rightarrow> response \<times> store" where
  "PATCH_id e st i u =
     (case update_by_id e st i u of
        (Inl message, st') \<Rightarrow>
          (\<lparr>code = 500, body = Error_body ''Failed to update API key'' (Some message)\<rparr>, st')
      | (Inr None, st') \<Rightarrow> (\<lparr>code = 404, body = Error_body ''API key not found'' None\<rparr>, st')
      | (Inr (Some data), st') \<Rightarrow> (\<lparr>code = 200, body = Data_key data\<rparr>, st'))"

text \<open>
  Modelled from the spec: the \<open>DELETE\<close> handler of the route \<open>/api/keys/[id]\<close>, whose
  file is not among the sources. The spec: ``\<open>DELETE /keys/{id}\<close> \<open>\<rightarrow> 204\<close>/\<open>200\<close> on
  success; \<open>404\<close>/\<open>500\<close> on failure'', and for \<open>delete\<close>: ``Irreversible. Fails with
  \<open>NotFoundError\<close> or \<open>StoreError\<close>''; ``deleting a nonexistent id is a no-op failure''.
  Of the two success codes the model answers 204.
\<close>

definition DELETE_id :: "db_env \<Rightarrow> store \<Rightarrow> string \<Rightarrow> response \<times> store" where
  "DELETE_id e st i =
     (case delete_by_id e st i of
        (Inl message, st') \<Rightarrow>
          (\<lparr>code = 500, body = Error_body ''Failed to delete API key'' (Some message)\<rparr>, st')
      | (Inr False, st') \<Rightarrow> (\<lparr>code = 404, body = Error_body ''API key not found'' None\<rparr>, st')
      | (Inr True, st') \<Rightarrow> (\<lparr>code = 204, body = No_content\<rparr>, st'))"

section \<open>Requests\<close>

text \<open>
  What the page sends with \<open>fetch\<close>. A \<open>fetch\<close> either rejects with an error message
  (the server was not reached) or resolves with a response.
\<close>

datatype request =
  GET_keys "(string \<times> string) list"
  | POST_keys "json option"
  | PATCH_key string api_key_update
  | DELETE_key string

type_synonym 'b fetch = "request \<Rightarrow> 'b \<Rightarrow> (string + response) \<times> 'b"

text \<open>
  The server behind \<open>fetch\<close>: for each request, whether the network fails, and what the
  store reads from its surroundings while serving it.
\<close>

record net_env =
  offline :: "request \<Rightarrow> bool"
  db_env_of :: "request \<Rightarrow> db_env"

definition serve :: "net_env \<Rightarrow> store fetch" where
  "serve w req st =
     (if offline w req then (Inl ''Failed to fetch'', st)
      else let (r, st') =
                 (case req of
                    GET_keys ps \<Rightarrow> GET (db_env_of w req) st ps
                  | POST_keys b \<Rightarrow> POST (db_env_of w req) st b
                  | PATCH_key i u \<Rightarrow> PATCH_id (db_env_of w req) st i u
                  | DELETE_key i \<Rightarrow> DELETE_id (db_env_of w req) st i)
           in (Inr r, st'))"

text \<open>\<open>response.ok\<close>.\<close>

definition ok :: "response \<Rightarrow> bool" where
  "ok r = (200 \<le> code r \<and> code r \<le> 299)"

section \<open>The dashboard page\<close>

text \<open>
  Text that the user types into a form field is a JavaScript string; it is modelled as the
  list of its Unicode code points, so that every character \<open>trim\<close> looks at is one
  element. (All white space of the language lies below \<open>U+10000\<close>, so code points and
  UTF-16 code units agree on it.) Everywhere else a string is the list of its bytes, as it
  travels in a JSON body; \<open>utf8\<close> takes the one to the other.
\<close>

type_synonym ustring = "nat list"

definition utf8_of :: "nat \<Rightarrow> string" where
  "utf8_of c =
     (if c < 0x80 then [char_of c]
      else if c < 0x800 then [char_of (0xC0 + c div 64), char_of (0x80 + c mod 64)]
      else if c < 0x10000
      then [char_of (0xE0 + c div 4096), char_of (0x80 + c div 64 mod 64),
            char_of (0x80 + c mod 64)]
      else [char_of (0xF0 + c div 262144), char_of (0x80 + c div 4096 mod 64),
            char_of (0x80 + c div 64 mod 64), char_of (0x80 + c mod 64)])"

definition utf8 :: "ustring \<Rightarrow> string" where
  "utf8 s = concat (map utf8_of s)"

datatype toast_type = Toast_success | Toast_error | Toast_info

record draft =
  draft_name :: ustring
  draft_scopes :: "string list"
  draft_environment :: string

text \<open>
  The component's state (the \<open>useState\<close> cells the operations read or write), followed by
  what the browser holds for it: the clock in milliseconds, the due times of the pending
  \<open>setTimeout\<close> callbacks (each of them is \<open>setShowToast(false)\<close>), the \<open>alert\<close> dialogs
  shown, the messages of \<open>console.error\<close>, the requests issued with \<open>fetch\<close>, and the
  calls of \<open>showToastNotification\<close>.
\<close>

record page =
  keys :: "api_key list"
  loading :: bool
  error :: "string option"
  newName :: ustring
  newScopes :: "string list"
  newEnvironment :: string
  editingId :: "string option"
  editDraft :: draft
  showToast :: bool
  toastMessage :: string
  toastType :: toast_type
  filterStatus :: string
  filterEnvironment :: string
  isModalOpen :: bool
  clock :: nat
  timers :: "nat list"
  alerts :: "string list"
  console :: "string list"
  sent :: "request list"
  toast_log :: "(string \<times> toast_type) list"

definition generateSecret :: "string \<times> string \<times> string \<Rightarrow> string \<Rightarrow> string" where
  "generateSecret rand env =
     (let prefix = (if env = ''production'' then ''live''
                    else if env = ''staging'' then ''test'' else ''dev'')
      in case rand of (r1, r2, r3) \<Rightarrow> ''groot_'' @ prefix @ ''_'' @ r1 @ r2 @ r3)"

text \<open>
  \<open>String.prototype.trim\<close> removes the leading and the trailing white space and line
  terminators of ECMAScript: TAB, LF, VT, FF, CR, SPACE, NO-BREAK SPACE \<open>U+00A0\<close>, the
  other space separators (\<open>U+1680\<close>, \<open>U+2000\<close> to \<open>U+200A\<close>, \<open>U+202F\<close>,
  \<open>U+205F\<close>, \<open>U+3000\<close>), LINE SEPARATOR \<open>U+2028\<close>, PARAGRAPH SEPARATOR
  \<open>U+2029\<close> and \<open>U+FEFF\<close>.
\<close>

definition is_space :: "nat \<Rightarrow> bool" where
  "is_space c =
     (c \<in> set [0x09, 0x0A, 0x0B, 0x0C, 0x0D, 0x20, 0xA0, 0x1680, 0x2028, 0x2029, 0x202F,
                0x205F, 0x3000, 0xFEFF]
      \<or> (0x2000 \<le> c \<and> c \<le> 0x200A))"

definition trim :: "ustring \<Rightarrow> ustring" where
  "trim s = rev (dropWhile is_space (rev (dropWhile is_space s)))"

definition do_fetch :: "'b fetch \<Rightarrow> request \<Rightarrow> page \<times> 'b \<Rightarrow> (string + response) \<times> page \<times> 'b" where
  "do_fetch fetch req w =
     (case w of (p, b) \<Rightarrow>
        (case fetch req b of (r, b') \<Rightarrow> (r, p\<lparr>sent := sent p @ [req]\<rparr>, b')))"

text \<open>The \<open>URLSearchParams\<close> that \<open>fetchKeys\<close> builds from the two filters.\<close>

definition params :: "page \<Rightarrow> (string \<times> string) list" where
  "params p =
     (if filterStatus p \<noteq> ''all'' then [(''status'', filterStatus p)] else [])
     @ (if filterEnvironment p \<noteq> ''all'' then [(''environment'', filterEnvironment p)] else [])"

definition fetchKeys :: "'b fetch \<Rightarrow> page \<times> 'b \<Rightarrow> page \<times> 'b" where
  "fetchKeys fetch w =
     (case w of (p, b) \<Rightarrow>
        let p1 = p\<lparr>loading := True\<rparr>
        in case do_fetch fetch (GET_keys (params p1)) (p1, b) of
             (Inr response, p2, b') \<Rightarrow>
               if \<not> ok response
               then (p2\<lparr>error := Some ''Failed to fetch API keys'',
                        console := console p2 @ [''Error fetching keys:''],
                        loading := False\<rparr>, b')
               else (p2\<lparr>keys := (case body response of Data_keys ks \<Rightarrow> ks | _ \<Rightarrow> []),
                        error := None, loading := False\<rparr>, b')
           | (Inl message, p2, b') \<Rightarrow>
               (p2\<lparr>error := Some message,
                   console := console p2 @ [''Error fetching keys:''],
                   loading := False\<rparr>, b'))"

definition showToastNotification :: "string \<Rightarrow> toast_type \<Rightarrow> page \<Rightarrow> page" where
  "showToastNotification message type p =
     p\<lparr>toastMessage := message, toastType := type, showToast := True,
       timers := timers p @ [clock p + 3000],
       toast_log := toast_log p @ [(message, type)]\<rparr>"

text \<open>
  Time passing: the callbacks that are due run, and each of them hides the toast.
\<close>

definition elapse :: "nat \<Rightarrow> page \<Rightarrow> page" where
  "elapse ms p =
     (let t = clock p + ms
      in p\<lparr>clock := t,
           timers := filter (\<lambda>due. t < due) (timers p),
           showToast := (if list_ex (\<lambda>due. due \<le> t) (timers p) then False else showToast p)\<rparr>)"

definition filteredKeys :: "page \<Rightarrow> api_key list" where
  "filteredKeys p =
     filter (\<lambda>key.
        let statusMatch = (filterStatus p = ''all'' \<or> status key = filterStatus p);
            envMatch = (filterEnvironment p = ''all'' \<or> environment key = filterEnvironment p)
        in statusMatch \<and> envMatch) (keys p)"

text \<open>The rows of the key table: none while loading, else one per filtered key.\<close>

definition table_rows :: "page \<Rightarrow> api_key list" where
  "table_rows p = (if loading p then [] else filteredKeys p)"

definition closeModal :: "page \<Rightarrow> page" where
  "closeModal p = p\<lparr>isModalOpen := False, newName := [], newScopes := [''read''],
                    newEnvironment := ''development''\<rparr>"

definition succeeded :: "string + response \<Rightarrow> bool" where
  "succeeded r = (case r of Inl message \<Rightarrow> False | Inr response \<Rightarrow> ok response)"

definition createKey :: "'b fetch \<Rightarrow> string \<times> string \<times> string \<Rightarrow> page \<times> 'b \<Rightarrow> page \<times> 'b" where
  "createKey fetch rand w =
     (case w of (p, b) \<Rightarrow>
        if trim (newName p) = [] then w
        else
          let newKey = JObj [(''name'', JStr (utf8 (trim (newName p)))),
                             (''secret'', JStr (generateSecret rand (newEnvironment p))),
                             (''scopes'', JArr (map JStr (if newScopes p \<noteq> [] then newScopes p
                                                          else [''read'']))),
                             (''environment'', JStr (newEnvironment p))]
          in case do_fetch fetch (POST_keys (Some newKey)) w of
               (r, w1) \<Rightarrow>
                 if succeeded r
                 then (case fetchKeys fetch w1 of
                         (p2, b2) \<Rightarrow>
                           (showToastNotification ''API key created successfully!'' Toast_success
                              (closeModal p2), b2))
                 else (case w1 of
                         (p1, b1) \<Rightarrow>
                           (showToastNotification ''Failed to create API key. Please try again.''
                              Toast_error
                              (p1\<lparr>console := console p1 @ [''Error creating key:'']\<rparr>), b1)))"

definition saveEdit :: "'b fetch \<Rightarrow> page \<times> 'b \<Rightarrow> page \<times> 'b" where
  "saveEdit fetch w =
     (case w of (p, b) \<Rightarrow>
        if \<not> truthy_string (editingId p) \<or> trim (draft_name (editDraft p)) = [] then w
        else
          (case editingId p of
             None \<Rightarrow> w
           | Some i \<Rightarrow>
               (case do_fetch fetch
                       (PATCH_key i (no_update\<lparr>upd_name := Some (utf8 (trim (draft_name (editDraft p)))),
                                               upd_scopes := Some (draft_scopes (editDraft p)),
                                               upd_environment :=
                                                 Some (draft_environment (editDraft p))\<rparr>)) w of
                  (r, w1) \<Rightarrow>
                    if succeeded r
                    then (case fetchKeys fetch w1 of
                            (p2, b2) \<Rightarrow>
                              (showToastNotification ''API key updated successfully!''
                                 Toast_success (p2\<lparr>editingId := None\<rparr>), b2))
                    else (case w1 of
                            (p1, b1) \<Rightarrow>
                              (showToastNotification
                                 ''Failed to update API key. Please try again.'' Toast_error
                                 (p1\<lparr>console := console p1 @ [''Error updating key:'']\<rparr>),
                               b1)))))"

definition rotateKey :: "'b fetch \<Rightarrow> string \<times> string \<times> string \<Rightarrow> string \<Rightarrow> page \<times> 'b \<Rightarrow> page \<times> 'b" where
  "rotateKey fetch rand i w =
     (case w of (p, b) \<Rightarrow>
        (case find (\<lambda>k. id_key k = i) (keys p) of
           None \<Rightarrow> w
         | Some key \<Rightarrow>
             (case do_fetch fetch
                     (PATCH_key i (no_update\<lparr>upd_secret :=
                                               Some (generateSecret rand (environment key)),
                                             upd_last_used := Some (Some (int (clock p)))\<rparr>)) w of
                (r, w1) \<Rightarrow>
                  if succeeded r then fetchKeys fetch w1
                  else (case w1 of
                          (p1, b1) \<Rightarrow>
                            (p1\<lparr>console := console p1 @ [''Error rotating key:''],
                                alerts := alerts p1
                                  @ [''Failed to rotate API key. Please try again.'']\<rparr>, b1)))))"

definition toggleStatus :: "'b fetch \<Rightarrow> string \<Rightarrow> page \<times> 'b \<Rightarrow> page \<times> 'b" where
  "toggleStatus fetch i w =
     (case w of (p, b) \<Rightarrow>
        (case find (\<lambda>k. id_key k = i) (keys p) of
           None \<Rightarrow> w
         | Some key \<Rightarrow>
             (case do_fetch fetch
                     (PATCH_key i (no_update\<lparr>upd_status :=
                        Some (if status key = ''active'' then ''revoked'' else ''active'')\<rparr>)) w of
                (r, w1) \<Rightarrow>
                  if succeeded r then fetchKeys fetch w1
                  else (case w1 of
                          (p1, b1) \<Rightarrow>
                            (p1\<lparr>console := console p1 @ [''Error toggling status:''],
                                alerts := alerts p1
                                  @ [''Failed to toggle API key status. Please try again.'']\<rparr>,
                             b1)))))"

text \<open>
  \<open>confirmed\<close> is the user's answer to the \<open>confirm\<close> dialog, which opens before anything
  else happens.
\<close>

definition deleteKey :: "'b fetch \<Rightarrow> bool \<Rightarrow> string \<Rightarrow> page \<times> 'b \<Rightarrow> page \<times> 'b" where
  "deleteKey fetch confirmed i w =
     (if \<not> confirmed then w
      else
        (case do_fetch fetch (DELETE_key i) w of
           (r, w1) \<Rightarrow>
             if succeeded r
             then (case fetchKeys fetch w1 of
                     (p2, b2) \<Rightarrow>
                       (showToastNotification ''API key deleted successfully!'' Toast_error p2, b2))
             else (case w1 of
                     (p1, b1) \<Rightarrow>
                       (showToastNotification ''Failed to delete API key. Please try again.''
                          Toast_error
                          (p1\<lparr>console := console p1 @ [''Error deleting key:'']\<rparr>), b1))))"

text \<open>The state the component starts in: the initial values of its \<open>useState\<close> cells.\<close>

definition initial_page :: page where
  "initial_page =
     \<lparr>keys = [], loading = True, error = None, newName = [], newScopes = [''read''],
      newEnvironment = ''development'', editingId = None,
      editDraft = \<lparr>draft_name = [], draft_scopes = [], draft_environment = ''development''\<rparr>,
      showToast = False, toastMessage = [], toastType = Toast_success,
      filterStatus = ''all'', filterEnvironment = ''all'', isModalOpen = False,
      clock = 0, timers = [], alerts = [], console = [], sent = [], toast_log = []\<rparr>"

section \<open>Notions of the specification\<close>

text \<open>
  One user-visible, auto-dismissing notification: between the page before and the page
  after, \<open>showToastNotification\<close> ran exactly once; its toast is the one on display, and
  the callback that hides it is pending, due three seconds after it was shown.
\<close>

definition one_notification :: "page \<Rightarrow> page \<Rightarrow> bool" where
  "one_notification p p' =
     (case drop (length (toast_log p)) (toast_log p') of
        [(m, t)] \<Rightarrow> take (length (toast_log p)) (toast_log p') = toast_log p
                    \<and> showToast p' \<and> toastMessage p' = m \<and> toastType p' = t
                    \<and> timers p' = timers p @ [clock p + 3000]
      | _ \<Rightarrow> False)"

text \<open>
  The table constraints of \<open>supabase-schema.sql\<close>, as a property of the stored rows: the
  primary key, \<open>UNIQUE (secret)\<close> and the two \<open>CHECK\<close>s.
\<close>

definition constraints_hold :: "api_key list \<Rightarrow> bool" where
  "constraints_hold ks =
     (distinct (map id_key ks) \<and> distinct (map secret ks)
      \<and> list_all (\<lambda>k. status_check (status k) \<and> environment_check (environment k)) ks)"

section \<open>Example data\<close>

definition key_a :: api_key where
  "key_a = \<lparr>id_key = ''k1'', name = ''Production API Key'', secret = ''groot_live_43fj'',
            status = ''active'', scopes = [''read'', ''write''], created_at = 100,
            last_used = Some 150, environment = ''production'', updated_at = 100\<rparr>"

definition key_b :: api_key where
  "key_b = \<lparr>id_key = ''k2'', name = ''Staging Integration'', secret = ''groot_test_8ddm'',
            status = ''revoked'', scopes = [''read''], created_at = 300,
            last_used = None, environment = ''staging'', updated_at = 320\<rparr>"

definition key_c :: api_key where
  "key_c = \<lparr>id_key = ''k3'', name = ''Development Testing'', secret = ''groot_dev_xx33'',
            status = ''active'', scopes = [''read''], created_at = 200,
            last_used = None, environment = ''development'', updated_at = 200\<rparr>"

definition env_ok :: db_env where
  "env_ok = \<lparr>db_fault = None, db_now = 1000, db_uuid = ''k9''\<rparr>"

definition seed :: store where
  "seed = \<lparr>rows = [key_a, key_b, key_c], calls = []\<rparr>"

definition body_no_scopes :: json where
  "body_no_scopes = JObj [(''name'', JStr ''Mobile key''), (''secret'', JStr ''groot_dev_abc123''),
                          (''scopes'', JArr []), (''environment'', JStr ''development'')]"

definition body_mobile :: json where
  "body_mobile = JObj [(''name'', JStr ''Mobile key''), (''secret'', JStr ''groot_dev_abc123''),
                       (''scopes'', JArr [JStr ''read'']), (''environment'', JStr ''development'')]"

definition body_unnamed :: json where
  "body_unnamed = JObj [(''name'', JStr []), (''secret'', JStr ''groot_dev_abc123''),
                        (''scopes'', JArr [JStr ''read'']), (''environment'', JStr ''development'')]"

text \<open>A network that works, with a store that answers; and one that is down.\<close>

definition net_ok :: net_env where
  "net_ok = \<lparr>offline = (\<lambda>req. False), db_env_of = (\<lambda>req. env_ok)\<rparr>"

definition net_down :: net_env where
  "net_down = \<lparr>offline = (\<lambda>req. True), db_env_of = (\<lambda>req. env_ok)\<rparr>"

text \<open>The page after it has loaded the seed rows, and the same page with both filters set.\<close>

definition page_seed :: page where
  "page_seed = initial_page\<lparr>keys := [key_b, key_c, key_a], loading := False\<rparr>"

definition page_filtered :: page where
  "page_filtered = page_seed\<lparr>filterStatus := ''active'', filterEnvironment := ''production''\<rparr>"

text \<open>
  Three draws of the random suffix, and a page with the creation form filled in: the name
  is \<open>Mobile key\<close> with a space before and after it.
\<close>

definition rand_abc :: "string \<times> string \<times> string" where
  "rand_abc = (''abc123'', ''def456'', ''ghi789'')"

definition page_create :: page where
  "page_create = page_seed\<lparr>newName := [32, 77, 111, 98, 105, 108, 101, 32, 107, 101, 121, 32], isModalOpen := True\<rparr>"

text \<open>
  A network on which every request gets through except the listing: the mutation reaches
  the store and the refresh that follows it fails.
\<close>

definition net_no_refresh :: net_env where
  "net_no_refresh =
     \<lparr>offline = (\<lambda>req. case req of GET_keys ps \<Rightarrow> True | _ \<Rightarrow> False),
      db_env_of = (\<lambda>req. env_ok)\<rparr>"

text \<open>
  The starting page with the status filter on \<open>active\<close>; the loaded page while the
  first key is being edited, its environment changed to \<open>staging\<close> in the draft (the draft
  name is \<open>Key\<close>); and the loaded page with a creation form whose name is a no-break
  space.
\<close>

definition page_active :: page where
  "page_active = initial_page\<lparr>filterStatus := ''active''\<rparr>"

definition page_editing :: page where
  "page_editing =
     page_seed\<lparr>editingId := Some ''k1'',
                editDraft := \<lparr>draft_name = [75, 101, 121], draft_scopes = [''read'', ''write''],
                              draft_environment = ''staging''\<rparr>\<rparr>"

definition page_blank :: page where
  "page_blank = page_seed\<lparr>newName := [0xA0], isModalOpen := True\<rparr>"

section \<open>Listing\<close>

lemma row_matches_status [simp]: "row_matches [(''status'', s)] = (\<lambda>k. status k = s)"
  by (rule ext) (simp add: text_column_def)

lemma row_matches_environment [simp]:
  "row_matches [(''environment'', en)] = (\<lambda>k. environment k = en)"
  by (rule ext) (simp add: text_column_def)

lemma row_matches_both [simp]:
  "row_matches [(''status'', s), (''environment'', en)]
     = (\<lambda>k. status k = s \<and> environment k = en)"
  by (rule ext) (simp add: text_column_def)

lemma sorted_newest_first:
  "sorted_wrt (\<lambda>a b. created_at b \<le> created_at a) (newest_first ks)"
proof -
  have "sorted (map (\<lambda>k. - created_at k) (newest_first ks))"
    unfolding newest_first_def by (rule sorted_sort_key)
  then show ?thesis
    by (simp add: sorted_map sorted_wrt_iff_nth_less)
qed

lemma mset_newest_first: "mset (newest_first ks) = mset ks"
  by (simp add: newest_first_def)

lemma GET_reachable:
  assumes "db_fault e = None"
  shows "GET e st ps =
    (\<lparr>code = 200, body = Data_keys (newest_first (filter (\<lambda>k.
        (\<forall>s. searchParams_get ps ''status'' = Some s \<longrightarrow> s \<noteq> [] \<longrightarrow> s \<noteq> ''all''
           \<longrightarrow> status k = s) \<and>
        (\<forall>en. searchParams_get ps ''environment'' = Some en \<longrightarrow> en \<noteq> [] \<longrightarrow> en \<noteq> ''all''
           \<longrightarrow> environment k = en)) (rows st)))\<rparr>,
     st\<lparr>calls := calls st @ [Call_select]\<rparr>)"
proof -
  have known: "text_column ''status'' \<noteq> None" "text_column ''environment'' \<noteq> None"
    by (simp_all add: text_column_def)
  note defs = GET_def run_query_def Let_def order_created_at_desc_def select_all_def eq_def
  show ?thesis
  proof (cases "searchParams_get ps ''status''")
    case None
    note S = this
    show ?thesis
    proof (cases "searchParams_get ps ''environment''")
      case None
      with S assms show ?thesis by (simp add: defs)
    next
      case (Some en)
      with S assms known show ?thesis by (simp add: defs)
    qed
  next
    case (Some s)
    note S = this
    show ?thesis
    proof (cases "searchParams_get ps ''environment''")
      case None
      with S assms known show ?thesis by (simp add: defs)
    next
      case (Some en)
      with S assms known show ?thesis by (simp add: defs)
    qed
  qed
qed

lemma GET_unreachable:
  "db_fault e = Some msg \<Longrightarrow> GET e st ps =
    (\<lparr>code = 500, body = Error_body ''Failed to fetch API keys'' (Some msg)\<rparr>,
     st\<lparr>calls := calls st @ [Call_select]\<rparr>)"
  by (simp add: GET_def run_query_def Let_def split: option.splits)

text \<open>
  C1, as stated, fails: a parameter that is provided with the empty value
  (\<open>GET /keys?status=\<close>) is not the sentinel, yet no filter is applied: the listing
  returns a row whose status is not the empty string.
\<close>

theorem GET_empty_status_counterexample:
  "fst (GET env_ok \<lparr>rows = [key_a], calls = []\<rparr> [(''status'', [])])
     = \<lparr>code = 200, body = Data_keys [key_a]\<rparr>
   \<and> status key_a \<noteq> []"
  by (simp add: GET_reachable env_ok_def newest_first_def key_a_def)

text \<open>
  C1, amended: when the store answers, the listing is a 200 whose records are exactly the
  stored rows that agree with every query parameter (status, environment) that is provided
  with a non-empty value other than \<open>all\<close>; a parameter that is absent, empty or \<open>all\<close>
  leaves its dimension unconstrained; and the records come newest first. When the store
  fails, the answer is a 500.
\<close>

theorem GET_filters_newest_first:
  "case db_fault e of
     Some msg \<Rightarrow> code (fst (GET e st ps)) = 500
   | None \<Rightarrow>
      (\<exists>data. fst (GET e st ps) = \<lparr>code = 200, body = Data_keys data\<rparr>
        \<and> mset data = mset (filter (\<lambda>k.
             (\<forall>s. searchParams_get ps ''status'' = Some s \<longrightarrow> s \<noteq> [] \<longrightarrow> s \<noteq> ''all''
                \<longrightarrow> status k = s) \<and>
             (\<forall>en. searchParams_get ps ''environment'' = Some en \<longrightarrow> en \<noteq> []
                \<longrightarrow> en \<noteq> ''all'' \<longrightarrow> environment k = en)) (rows st))
        \<and> sorted_wrt (\<lambda>a b. created_at b \<le> created_at a) data)"
proof (cases "db_fault e")
  case None
  then show ?thesis
    by (simp add: GET_reachable mset_newest_first sorted_newest_first)
next
  case (Some msg)
  then show ?thesis
    by (simp add: GET_unreachable)
qed

theorem GET_filters_newest_first_witness:
  "\<exists>data. fst (GET env_ok seed [(''status'', ''active''), (''environment'', ''all'')])
            = \<lparr>code = 200, body = Data_keys data\<rparr>
        \<and> mset data = mset [key_a, key_c]
        \<and> sorted_wrt (\<lambda>a b. created_at b \<le> created_at a) data"
  using GET_filters_newest_first
          [of env_ok seed "[(''status'', ''active''), (''environment'', ''all'')]"]
  by (simp add: env_ok_def seed_def key_a_def key_b_def key_c_def)

section \<open>Creating\<close>

lemmas example_defs = env_ok_def seed_def key_a_def key_b_def key_c_def

lemmas POST_eval = POST_def insert_single_def decode_insert_def object_def
  List.map_filter_def status_check_def environment_check_def Let_def internal_server_error_def

lemma POST_rejects:
  assumes "b \<noteq> JNull"
    and "\<not> truthy (property b ''name'') \<or> \<not> truthy (property b ''secret'')
         \<or> \<not> truthy (property b ''scopes'') \<or> \<not> truthy (property b ''environment'')"
  shows "POST e st (Some b) = (\<lparr>code = 400, body = Error_body
           ''Missing required fields: name, secret, scopes, environment'' None\<rparr>, st)"
  using assms by (cases b) (simp_all add: POST_def Let_def)

lemma POST_accepts:
  assumes "b \<noteq> JNull"
    and "truthy (property b ''name'')" "truthy (property b ''secret'')"
        "truthy (property b ''scopes'')" "truthy (property b ''environment'')"
  shows "POST e st (Some b) =
           (case insert_single e st (POST_row b) of
              (Inl message, st') \<Rightarrow>
                (\<lparr>code = 500, body = Error_body ''Failed to create API key'' (Some message)\<rparr>, st')
            | (Inr data, st') \<Rightarrow> (\<lparr>code = 201, body = Data_key data\<rparr>, st'))"
  using assms by (cases b) (simp_all add: POST_def Let_def POST_row_def)

lemma insert_single_calls: "calls (snd (insert_single e st row)) = calls st @ [Call_insert]"
  by (simp add: insert_single_def Let_def split: option.splits)

lemma insert_single_Inr:
  assumes "insert_single e st row = (Inr k, st')"
  shows "id_key k = db_uuid e \<and> created_at k = db_now e \<and> updated_at k = db_now e
     \<and> st' = st\<lparr>rows := rows st @ [k], calls := calls st @ [Call_insert]\<rparr>
     \<and> (\<exists>i. decode_insert row = Some i \<and> name k = ins_name i \<and> secret k = ins_secret i
            \<and> status k = ins_status i \<and> scopes k = ins_scopes i
            \<and> last_used k = ins_last_used i \<and> environment k = ins_environment i)"
  using assms by (auto simp: insert_single_def Let_def split: option.splits if_splits)

lemma truthy_Some: "truthy x \<Longrightarrow> \<exists>v. x = Some v"
  by (cases x) simp_all

lemma POST_row_present:
  assumes "truthy (property b ''name'')" "truthy (property b ''secret'')"
          "truthy (property b ''scopes'')" "truthy (property b ''environment'')"
  shows "property (POST_row b) ''status'' = Some (JStr ''active'')
         \<and> property (POST_row b) ''last_used'' = Some JNull"
proof -
  from assms obtain n s sc en where
    "property b ''name'' = Some n" "property b ''secret'' = Some s"
    "property b ''scopes'' = Some sc" "property b ''environment'' = Some en"
    by (meson truthy_Some)
  then show ?thesis
    by (simp add: POST_row_def object_def List.map_filter_def)
qed

lemma decode_insert_Some:
  assumes "decode_insert row = Some i"
  shows "Option.bind (property row ''status'') as_text = Some (ins_status i)"
    and "(case property row ''last_used'' of None \<Rightarrow> Some None | Some v \<Rightarrow> as_timestamp v)
           = Some (ins_last_used i)"
  using assms by (auto simp: decode_insert_def bind_eq_Some_conv)

text \<open>
  C2, as stated, fails: a request whose \<open>scopes\<close> is the empty array is not rejected (an
  empty array is truthy): the insert is attempted and the answer is 201. And a body that is
  the JSON value \<open>null\<close> has every field missing, yet the answer is 500, not 400.
\<close>

theorem POST_empty_scopes_counterexample:
  "property body_no_scopes ''scopes'' = Some (JArr [])
   \<and> code (fst (POST env_ok seed (Some body_no_scopes))) = 201
   \<and> calls (snd (POST env_ok seed (Some body_no_scopes))) = [Call_insert]
   \<and> code (fst (POST env_ok seed (Some JNull))) = 500"
  by (simp add: POST_eval example_defs body_no_scopes_def)

text \<open>
  C2, amended: for every create request whose body is a JSON value other than \<open>null\<close>: if
  \<open>name\<close>, \<open>secret\<close>, \<open>scopes\<close> or \<open>environment\<close> is falsy (absent, \<open>null\<close>,
  \<open>false\<close>, \<open>0\<close> or the empty string; an empty array is not), the request is rejected
  with 400 and the store is left as it was, with no call made to it; otherwise exactly one
  insert is attempted, a store failure yields 500 and a success 201.
\<close>

theorem POST_validation:
  assumes "b \<noteq> JNull"
  shows "if \<not> truthy (property b ''name'') \<or> \<not> truthy (property b ''secret'')
            \<or> \<not> truthy (property b ''scopes'') \<or> \<not> truthy (property b ''environment'')
         then POST e st (Some b) = (\<lparr>code = 400, body = Error_body
                ''Missing required fields: name, secret, scopes, environment'' None\<rparr>, st)
         else calls (snd (POST e st (Some b))) = calls st @ [Call_insert]
              \<and> (case fst (insert_single e st (POST_row b)) of
                    Inl message \<Rightarrow> fst (POST e st (Some b)) =
                      \<lparr>code = 500, body = Error_body ''Failed to create API key'' (Some message)\<rparr>
                  | Inr data \<Rightarrow> fst (POST e st (Some b)) = \<lparr>code = 201, body = Data_key data\<rparr>)"
proof (cases "\<not> truthy (property b ''name'') \<or> \<not> truthy (property b ''secret'')
            \<or> \<not> truthy (property b ''scopes'') \<or> \<not> truthy (property b ''environment'')")
  case True
  with assms show ?thesis
    using POST_rejects [of b e st] by presburger
next
  case False
  then have t: "truthy (property b ''name'')" "truthy (property b ''secret'')"
        "truthy (property b ''scopes'')" "truthy (property b ''environment'')"
    by simp_all
  obtain res st' where i: "insert_single e st (POST_row b) = (res, st')"
    by (cases "insert_single e st (POST_row b)")
  then have "calls st' = calls st @ [Call_insert]"
    using insert_single_calls [of e st "POST_row b"] by simp
  with i False show ?thesis
    by (cases res) (simp_all add: POST_accepts [OF assms t])
qed

theorem POST_validation_witness:
  "body_unnamed \<noteq> JNull
   \<and> POST env_ok seed (Some body_unnamed) = (\<lparr>code = 400, body = Error_body
        ''Missing required fields: name, secret, scopes, environment'' None\<rparr>, seed)
   \<and> body_mobile \<noteq> JNull
   \<and> calls (snd (POST env_ok seed (Some body_mobile))) = [Call_insert]
   \<and> code (fst (POST env_ok seed (Some body_mobile))) = 201"
proof -
  have i: "code (case fst (insert_single env_ok seed (POST_row body_mobile)) of
                   Inl message \<Rightarrow> \<lparr>code = 500, body = Error_body [] None\<rparr>
                 | Inr data \<Rightarrow> \<lparr>code = 201, body = Data_key data\<rparr>) = 201"
    by (simp add: POST_row_def POST_eval example_defs body_mobile_def)
  have c: "calls seed = []" by (simp add: seed_def)
  from POST_validation [of body_unnamed env_ok seed] POST_validation [of body_mobile env_ok seed] i c
  show ?thesis
    by (simp add: body_unnamed_def body_mobile_def split: sum.splits)
qed

text \<open>
  C3: for every successful create request (a response that is \<open>ok\<close>), the response is 201
  and carries the created record; that record has status \<open>active\<close> and no \<open>last_used\<close>,
  its \<open>id\<close>, \<open>created_at\<close> and \<open>updated_at\<close> are the store's \<open>gen_random_uuid()\<close> and
  \<open>NOW()\<close>, and it is the one row added to the table.
\<close>

theorem POST_created_record:
  assumes "POST e st request_body = (r, st')" and "200 \<le> code r" and "code r < 300"
  shows "code r = 201 \<and> (\<exists>k. body r = Data_key k \<and> status k = ''active'' \<and> last_used k = None
            \<and> id_key k = db_uuid e \<and> created_at k = db_now e \<and> updated_at k = db_now e
            \<and> rows st' = rows st @ [k])"
proof (cases request_body)
  case None
  with assms show ?thesis by (auto simp: POST_def internal_server_error_def)
next
  case (Some b)
  show ?thesis
  proof (cases "b = JNull")
    case True
    with Some assms show ?thesis by (auto simp: POST_def internal_server_error_def)
  next
    case False
    note nn = this
    show ?thesis
    proof (cases "\<not> truthy (property b ''name'') \<or> \<not> truthy (property b ''secret'')
            \<or> \<not> truthy (property b ''scopes'') \<or> \<not> truthy (property b ''environment'')")
      case True
      with assms Some show ?thesis
        using POST_rejects [OF nn, of e st] by auto
    next
      case False
      then have t: "truthy (property b ''name'')" "truthy (property b ''secret'')"
        "truthy (property b ''scopes'')" "truthy (property b ''environment'')"
        by simp_all
      obtain res st2 where i: "insert_single e st (POST_row b) = (res, st2)"
        by (cases "insert_single e st (POST_row b)")
      show ?thesis
      proof (cases res)
        case (Inl m)
        with i assms Some show ?thesis
          by (auto simp: POST_accepts [OF nn t])
      next
        case (Inr k)
        with i assms Some have r: "r = \<lparr>code = 201, body = Data_key k\<rparr>" and s: "st' = st2"
          by (auto simp: POST_accepts [OF nn t])
        from i Inr have k: "insert_single e st (POST_row b) = (Inr k, st2)" by simp
        from insert_single_Inr [OF k] obtain i where
          a: "id_key k = db_uuid e" "created_at k = db_now e" "updated_at k = db_now e"
             "st2 = st\<lparr>rows := rows st @ [k], calls := calls st @ [Call_insert]\<rparr>"
          and d: "decode_insert (POST_row b) = Some i"
          and f: "status k = ins_status i" "last_used k = ins_last_used i"
          by blast
        from decode_insert_Some [OF d] POST_row_present [OF t]
        have "ins_status i = ''active''" "ins_last_used i = None"
          by simp_all
        with a f r s show ?thesis by simp
      qed
    qed
  qed
qed

theorem POST_created_record_witness:
  "code (fst (POST env_ok seed (Some body_mobile))) = 201
   \<and> (\<exists>k. body (fst (POST env_ok seed (Some body_mobile))) = Data_key k
          \<and> status k = ''active'' \<and> last_used k = None
          \<and> id_key k = ''k9'' \<and> created_at k = 1000 \<and> updated_at k = 1000
          \<and> rows (snd (POST env_ok seed (Some body_mobile))) = rows seed @ [k])"
proof -
  have p: "POST env_ok seed (Some body_mobile)
             = (fst (POST env_ok seed (Some body_mobile)), snd (POST env_ok seed (Some body_mobile)))"
    by simp
  have c: "code (fst (POST env_ok seed (Some body_mobile))) = 201"
    by (simp add: POST_eval example_defs body_mobile_def)
  from POST_created_record [OF p] c show ?thesis
    by (simp add: env_ok_def)
qed


section \<open>The page: fetching and notifying\<close>

lemma trim_white_space:
  "trim [0x09, 0x0A, 0x0B, 0x0C, 0x0D, 0x20, 0xA0, 0x1680, 0x2000, 0x2005, 0x200A, 0x2028,
         0x2029, 0x202F, 0x205F, 0x3000, 0xFEFF] = []"
  "trim [0xA0, 0x4B, 0x20, 0x4B, 0x3000] = [0x4B, 0x20, 0x4B]"
  "trim [0x200B] = [0x200B]" "trim [0x85] = [0x85]" "trim [0x180E] = [0x180E]"
  by (simp_all add: trim_def is_space_def)

lemma do_fetch_eq:
  "do_fetch fetch req (p, b) = (fst (fetch req b), p\<lparr>sent := sent p @ [req]\<rparr>, snd (fetch req b))"
  by (simp add: do_fetch_def split: prod.splits)

lemma params_loading [simp]: "params (p\<lparr>loading := x\<rparr>) = params p"
  by (simp add: params_def)

lemma params_sent [simp]: "params (p\<lparr>sent := x\<rparr>) = params p"
  by (simp add: params_def)

lemma fetchKeys_frame:
  "toast_log (fst (fetchKeys fetch (p, b))) = toast_log p"
  "timers (fst (fetchKeys fetch (p, b))) = timers p"
  "clock (fst (fetchKeys fetch (p, b))) = clock p"
  "showToast (fst (fetchKeys fetch (p, b))) = showToast p"
  "toastMessage (fst (fetchKeys fetch (p, b))) = toastMessage p"
  "toastType (fst (fetchKeys fetch (p, b))) = toastType p"
  "alerts (fst (fetchKeys fetch (p, b))) = alerts p"
  "sent (fst (fetchKeys fetch (p, b))) = sent p @ [GET_keys (params p)]"
  "snd (fetchKeys fetch (p, b)) = snd (fetch (GET_keys (params p)) b)"
  by (simp_all add: fetchKeys_def do_fetch_eq Let_def split: sum.splits)

lemma fetchKeys_keys:
  "keys (fst (fetchKeys fetch (p, b))) =
     (case fst (fetch (GET_keys (params p)) b) of
        Inl m \<Rightarrow> keys p
      | Inr r \<Rightarrow> if ok r then (case body r of Data_keys ks \<Rightarrow> ks | _ \<Rightarrow> []) else keys p)"
  by (simp add: fetchKeys_def do_fetch_eq Let_def split: sum.splits)

lemma one_notification_show:
  assumes "toast_log q = toast_log p" "timers q = timers p" "clock q = clock p"
  shows "one_notification p (showToastNotification m t q)"
  using assms by (simp add: one_notification_def showToastNotification_def)

lemma createKey_notifies:
  assumes "trim (newName p) \<noteq> []"
  shows "one_notification p (fst (createKey fetch rand (p, b)))"
  using assms
  by (simp add: createKey_def do_fetch_eq case_prod_beta Let_def closeModal_def
        fetchKeys_frame one_notification_show)

lemma saveEdit_notifies:
  assumes "truthy_string (editingId p)" "trim (draft_name (editDraft p)) \<noteq> []"
  shows "one_notification p (fst (saveEdit fetch (p, b)))"
  using assms
  by (cases "editingId p")
     (simp_all add: saveEdit_def do_fetch_eq case_prod_beta Let_def
        fetchKeys_frame one_notification_show)

lemma deleteKey_notifies:
  "one_notification p (fst (deleteKey fetch True i (p, b)))"
  by (simp add: deleteKey_def do_fetch_eq case_prod_beta Let_def
        fetchKeys_frame one_notification_show)

lemma rotateKey_no_toast:
  "toast_log (fst (rotateKey fetch rand i (p, b))) = toast_log p
   \<and> showToast (fst (rotateKey fetch rand i (p, b))) = showToast p
   \<and> timers (fst (rotateKey fetch rand i (p, b))) = timers p"
  by (simp add: rotateKey_def do_fetch_eq case_prod_beta Let_def fetchKeys_frame
      split: option.splits)

lemma toggleStatus_no_toast:
  "toast_log (fst (toggleStatus fetch i (p, b))) = toast_log p
   \<and> showToast (fst (toggleStatus fetch i (p, b))) = showToast p
   \<and> timers (fst (toggleStatus fetch i (p, b))) = timers p"
  by (simp add: toggleStatus_def do_fetch_eq case_prod_beta Let_def fetchKeys_frame
      split: option.splits)

lemma rotateKey_alerts:
  "alerts (fst (rotateKey fetch rand i (p, b))) =
     (case find (\<lambda>k. id_key k = i) (keys p) of
        None \<Rightarrow> alerts p
      | Some key \<Rightarrow>
          if succeeded (fst (fetch (PATCH_key i (no_update\<lparr>upd_secret :=
                                               Some (generateSecret rand (environment key)),
                                             upd_last_used := Some (Some (int (clock p)))\<rparr>)) b))
          then alerts p
          else alerts p @ [''Failed to rotate API key. Please try again.''])"
  by (simp add: rotateKey_def do_fetch_eq case_prod_beta Let_def fetchKeys_frame
      split: option.splits)

lemma toggleStatus_alerts:
  "alerts (fst (toggleStatus fetch i (p, b))) =
     (case find (\<lambda>k. id_key k = i) (keys p) of
        None \<Rightarrow> alerts p
      | Some key \<Rightarrow>
          if succeeded (fst (fetch (PATCH_key i (no_update\<lparr>upd_status :=
                        Some (if status key = ''active'' then ''revoked'' else ''active'')\<rparr>)) b))
          then alerts p
          else alerts p @ [''Failed to toggle API key status. Please try again.''])"
  by (simp add: toggleStatus_def do_fetch_eq case_prod_beta Let_def fetchKeys_frame
      split: option.splits)

lemma deleteKey_declined: "deleteKey fetch False i w = w"
  by (simp add: deleteKey_def)

lemma deleteKey_succeeded:
  assumes "succeeded (fst (fetch (DELETE_key i) b))"
  shows "deleteKey fetch True i (p, b) =
           (showToastNotification ''API key deleted successfully!'' Toast_error
              (fst (fetchKeys fetch (p\<lparr>sent := sent p @ [DELETE_key i]\<rparr>, snd (fetch (DELETE_key i) b)))),
            snd (fetchKeys fetch (p\<lparr>sent := sent p @ [DELETE_key i]\<rparr>, snd (fetch (DELETE_key i) b))))"
  using assms by (simp add: deleteKey_def do_fetch_eq split: prod.splits)

lemma deleteKey_failed:
  assumes "\<not> succeeded (fst (fetch (DELETE_key i) b))"
  shows "deleteKey fetch True i (p, b) =
           (showToastNotification ''Failed to delete API key. Please try again.'' Toast_error
              (p\<lparr>sent := sent p @ [DELETE_key i], console := console p @ [''Error deleting key:'']\<rparr>),
            snd (fetch (DELETE_key i) b))"
  using assms by (simp add: deleteKey_def do_fetch_eq split: prod.splits)

section \<open>The store behind the page\<close>

lemma GET_rows [simp]: "rows (snd (GET e st ps)) = rows st"
  by (simp add: GET_def run_query_def Let_def split: option.splits sum.splits prod.splits)

lemma GET_rows_only:
  assumes "rows st = rows st'"
  shows "fst (GET e st ps) = fst (GET e st' ps)"
  using assms by (simp add: GET_def run_query_def Let_def split: option.splits)

lemma GET_data_subset:
  assumes "fst (GET e st ps) = \<lparr>code = c, body = Data_keys data\<rparr>"
  shows "set data \<subseteq> set (rows st)"
proof (cases "db_fault e")
  case None
  from GET_reachable [OF None, of st ps] assms show ?thesis
    by (auto simp: newest_first_def)
next
  case (Some msg)
  from GET_unreachable [OF Some, of st ps] assms show ?thesis by simp
qed

lemma DELETE_id_unknown:
  assumes "db_fault e = None" and "i \<notin> id_key ` set (rows st)"
  shows "DELETE_id e st i = (\<lparr>code = 404, body = Error_body ''API key not found'' None\<rparr>,
           st\<lparr>calls := calls st @ [Call_delete]\<rparr>)"
  using assms by (simp add: DELETE_id_def delete_by_id_def Let_def)

lemma DELETE_id_known:
  assumes "db_fault e = None" and "i \<in> id_key ` set (rows st)"
  shows "DELETE_id e st i = (\<lparr>code = 204, body = No_content\<rparr>,
           st\<lparr>calls := calls st @ [Call_delete], rows := filter (\<lambda>k. id_key k \<noteq> i) (rows st)\<rparr>)"
  using assms by (simp add: DELETE_id_def delete_by_id_def Let_def)

lemma find_id_in:
  assumes "find (\<lambda>k. id_key k = i) ks = Some k"
  shows "k \<in> set ks" and "id_key k = i"
  using assms by (auto simp: find_Some_iff)

lemma distinct_id_eq:
  assumes "distinct (map id_key ks)" "k \<in> set ks" "k' \<in> set ks" "id_key k = id_key k'"
  shows "k = k'"
  using assms by (meson distinct_map inj_onD)

lemma only_row_with_id:
  assumes "distinct (map id_key ks)" "k \<in> set ks"
  shows "filter (\<lambda>r. id_key r = id_key k) ks = [k]"
  using assms
proof (induction ks)
  case Nil
  then show ?case by simp
next
  case (Cons a ks)
  show ?case
  proof (cases "a = k")
    case True
    with Cons.prems have "\<forall>r \<in> set ks. id_key r \<noteq> id_key k" by (metis distinct.simps(2) image_eqI list.simps(9) set_map)
    then have "filter (\<lambda>r. id_key r = id_key k) ks = []" by (simp add: filter_empty_conv)
    with True show ?thesis by simp
  next
    case False
    with Cons.prems have "k \<in> set ks" "id_key a \<noteq> id_key k" "distinct (map id_key ks)"
      by auto
    with Cons.IH show ?thesis by simp
  qed
qed

lemma find_map_same_id:
  assumes "\<And>r. id_key (f r) = id_key r"
  shows "find (\<lambda>k. id_key k = i) (map f ks) = map_option f (find (\<lambda>k. id_key k = i) ks)"
  using assms by (induction ks) simp_all

lemma other_secrets:
  assumes "distinct (map id_key ks)" "distinct (map secret ks)" "k \<in> set ks" "id_key k = i"
  shows "secret k \<notin> set (map secret (filter (\<lambda>r. id_key r \<noteq> i) ks))"
proof
  assume "secret k \<in> set (map secret (filter (\<lambda>r. id_key r \<noteq> i) ks))"
  then obtain r where r: "r \<in> set ks" "id_key r \<noteq> i" "secret r = secret k" by auto
  with assms(2,3) have "r = k" by (meson distinct_map inj_onD)
  with r assms(4) show False by simp
qed

lemma update_by_id_ok:
  assumes "db_fault e = None" and "find (\<lambda>k. id_key k = i) (rows st) = Some k"
    and "status_check (status (apply_update u k))"
    and "environment_check (environment (apply_update u k))"
    and "secret (apply_update u k) \<notin> set (map secret (filter (\<lambda>r. id_key r \<noteq> i) (rows st)))"
  shows "update_by_id e st i u =
           (Inr (Some (update_updated_at_column e (apply_update u k))),
            st\<lparr>calls := calls st @ [Call_update],
               rows := map (\<lambda>r. if id_key r = i
                                 then update_updated_at_column e (apply_update u r) else r)
                           (rows st)\<rparr>)"
  using assms by (simp add: update_by_id_def Let_def update_updated_at_column_def)

lemma serve_PATCH_ok:
  assumes "\<not> offline w (PATCH_key i u)" and "db_fault (db_env_of w (PATCH_key i u)) = None"
    and "find (\<lambda>k. id_key k = i) (rows st) = Some k"
    and "status_check (status (apply_update u k))"
    and "environment_check (environment (apply_update u k))"
    and "secret (apply_update u k) \<notin> set (map secret (filter (\<lambda>r. id_key r \<noteq> i) (rows st)))"
  shows "succeeded (fst (serve w (PATCH_key i u) st))"
    and "rows (snd (serve w (PATCH_key i u) st)) =
           map (\<lambda>r. if id_key r = i
                     then update_updated_at_column (db_env_of w (PATCH_key i u)) (apply_update u r)
                     else r) (rows st)"
  using assms(1) update_by_id_ok [OF assms(2-6)]
  by (simp_all add: serve_def PATCH_id_def succeeded_def ok_def)

lemma serve_GET_rows [simp]: "rows (snd (serve w (GET_keys ps) st)) = rows st"
  by (simp add: serve_def case_prod_beta)

lemma toggleStatus_rows:
  assumes "find (\<lambda>k. id_key k = i) (keys p) = Some key"
    and "succeeded (fst (serve w (PATCH_key i (no_update\<lparr>upd_status :=
                        Some (if status key = ''active'' then ''revoked'' else ''active'')\<rparr>)) st))"
  shows "rows (snd (toggleStatus (serve w) i (p, st))) =
           rows (snd (serve w (PATCH_key i (no_update\<lparr>upd_status :=
                        Some (if status key = ''active'' then ''revoked'' else ''active'')\<rparr>)) st))"
  using assms
  by (simp add: toggleStatus_def do_fetch_eq fetchKeys_frame)

lemma rotateKey_rows:
  assumes "find (\<lambda>k. id_key k = i) (keys p) = Some key"
    and "succeeded (fst (serve w (PATCH_key i (no_update\<lparr>upd_secret :=
                                               Some (generateSecret rand (environment key)),
                                             upd_last_used := Some (Some (int (clock p)))\<rparr>)) st))"
  shows "rows (snd (rotateKey (serve w) rand i (p, st))) =
           rows (snd (serve w (PATCH_key i (no_update\<lparr>upd_secret :=
                                               Some (generateSecret rand (environment key)),
                                             upd_last_used := Some (Some (int (clock p)))\<rparr>)) st))"
    and "sent (fst (rotateKey (serve w) rand i (p, st))) =
           sent p @ [PATCH_key i (no_update\<lparr>upd_secret :=
                                               Some (generateSecret rand (environment key)),
                                             upd_last_used := Some (Some (int (clock p)))\<rparr>),
                     GET_keys (params p)]"
  using assms
  by (simp_all add: rotateKey_def do_fetch_eq fetchKeys_frame)

lemma flip_flip:
  assumes "status_check s"
  shows "(if (if s = ''active'' then ''revoked'' else ''active'') = ''active''
          then ''revoked'' else ''active'') = s"
  using assms by (auto simp: status_check_def)

lemma status_check_flip: "status_check (if s = ''active'' then ''revoked'' else ''active'')"
  by (simp add: status_check_def)

lemma others_map_same_id:
  assumes "\<And>r. id_key (f r) = id_key r" "\<And>r. id_key r \<noteq> i \<Longrightarrow> f r = r"
  shows "filter (\<lambda>r. id_key r \<noteq> i) (map f ks) = filter (\<lambda>r. id_key r \<noteq> i) ks"
  using assms by (induction ks) simp_all

lemma constraints_holdD:
  assumes "constraints_hold ks" "k \<in> set ks"
  shows "distinct (map id_key ks)" "distinct (map secret ks)"
    "status_check (status k)" "environment_check (environment k)"
  using assms by (auto simp: constraints_hold_def list_all_iff)

lemma apply_status [simp]:
  "apply_update (no_update\<lparr>upd_status := Some s\<rparr>) r = r\<lparr>status := s\<rparr>"
  by (simp add: apply_update_def no_update_def)

lemma apply_rotate [simp]:
  "apply_update (no_update\<lparr>upd_secret := Some s, upd_last_used := Some t\<rparr>) r
     = r\<lparr>secret := s, last_used := t\<rparr>"
  by (simp add: apply_update_def no_update_def)

lemmas serve_eval = serve_def net_ok_def net_down_def env_ok_def seed_def
  DELETE_id_def delete_by_id_def PATCH_id_def update_by_id_def apply_update_def
  update_updated_at_column_def no_update_def status_check_def environment_check_def
  succeeded_def ok_def Let_def key_a_def key_b_def key_c_def

lemmas page_eval = page_seed_def initial_page_def

lemma deleteKey_serve_rows:
  assumes "\<not> offline w (DELETE_key i)"
  shows "rows (snd (deleteKey (serve w) True i (p, st)))
           = rows (snd (DELETE_id (db_env_of w (DELETE_key i)) st i))"
proof (cases "succeeded (fst (serve w (DELETE_key i) st))")
  case True
  from deleteKey_succeeded [of "serve w" i st p, OF True] assms show ?thesis
    by (simp add: fetchKeys_frame) (simp add: serve_def case_prod_beta)
next
  case False
  from deleteKey_failed [of "serve w" i st p, OF False] assms show ?thesis
    by (simp add: serve_def case_prod_beta)
qed

lemma deleteKey_serve_404:
  assumes "\<not> offline w (DELETE_key i)" "code (fst (DELETE_id (db_env_of w (DELETE_key i)) st i)) = 404"
  shows "keys (fst (deleteKey (serve w) True i (p, st))) = keys p"
proof -
  from assms have "\<not> succeeded (fst (serve w (DELETE_key i) st))"
    by (simp add: serve_def case_prod_beta succeeded_def ok_def)
  from deleteKey_failed [of "serve w" i st p, OF this] show ?thesis
    by (simp add: showToastNotification_def)
qed

section \<open>Deleting\<close>

text \<open>
  C4: with the store reachable, a \<open>DELETE\<close> of an id that no stored record has is answered
  404 and leaves the stored rows as they were; the page that issued it keeps its list, and
  every later listing is what it would have been. A \<open>DELETE\<close> of the id of a stored
  record succeeds (204; the spec allows 200 as well), removes exactly the rows with that
  id, no later listing contains the id, and deleting it again is answered 404.
\<close>

theorem DELETE_unknown_id_and_known_id:
  assumes "\<not> offline w (DELETE_key i)" and "db_fault (db_env_of w (DELETE_key i)) = None"
  shows "(i \<notin> id_key ` set (rows st) \<longrightarrow>
            code (fst (DELETE_id (db_env_of w (DELETE_key i)) st i)) = 404
            \<and> rows (snd (deleteKey (serve w) True i (p, st))) = rows st
            \<and> keys (fst (deleteKey (serve w) True i (p, st))) = keys p
            \<and> (\<forall>e' ps. fst (GET e' (snd (deleteKey (serve w) True i (p, st))) ps)
                          = fst (GET e' st ps)))
       \<and> (i \<in> id_key ` set (rows st) \<longrightarrow>
            (code (fst (DELETE_id (db_env_of w (DELETE_key i)) st i)) = 204
             \<or> code (fst (DELETE_id (db_env_of w (DELETE_key i)) st i)) = 200)
            \<and> rows (snd (deleteKey (serve w) True i (p, st)))
                = filter (\<lambda>k. id_key k \<noteq> i) (rows st)
            \<and> (\<forall>e' ps c data.
                  fst (GET e' (snd (deleteKey (serve w) True i (p, st))) ps)
                    = \<lparr>code = c, body = Data_keys data\<rparr>
                  \<longrightarrow> i \<notin> id_key ` set data)
            \<and> code (fst (DELETE_id (db_env_of w (DELETE_key i))
                            (snd (DELETE_id (db_env_of w (DELETE_key i)) st i)) i)) = 404)"
proof (intro conjI impI allI)
  let ?e = "db_env_of w (DELETE_key i)"
  assume u: "i \<notin> id_key ` set (rows st)"
  note d = DELETE_id_unknown [OF assms(2) u]
  show c: "code (fst (DELETE_id ?e st i)) = 404" by (simp add: d)
  show r: "rows (snd (deleteKey (serve w) True i (p, st))) = rows st"
    by (simp add: deleteKey_serve_rows [OF assms(1)] d)
  show "keys (fst (deleteKey (serve w) True i (p, st))) = keys p"
    by (rule deleteKey_serve_404 [OF assms(1) c])
  show "fst (GET e' (snd (deleteKey (serve w) True i (p, st))) ps) = fst (GET e' st ps)" for e' ps
    by (rule GET_rows_only) (rule r)
next
  let ?e = "db_env_of w (DELETE_key i)"
  assume k: "i \<in> id_key ` set (rows st)"
  note d = DELETE_id_known [OF assms(2) k]
  show "code (fst (DELETE_id ?e st i)) = 204 \<or> code (fst (DELETE_id ?e st i)) = 200"
    by (simp add: d)
  show r: "rows (snd (deleteKey (serve w) True i (p, st))) = filter (\<lambda>k. id_key k \<noteq> i) (rows st)"
    by (simp add: deleteKey_serve_rows [OF assms(1)] d)
  show "i \<notin> id_key ` set data"
    if "fst (GET e' (snd (deleteKey (serve w) True i (p, st))) ps)
          = \<lparr>code = c, body = Data_keys data\<rparr>" for e' ps c data
    using GET_data_subset [OF that] by (auto simp: r)
  have "i \<notin> id_key ` set (rows (snd (DELETE_id ?e st i)))" by (auto simp: d)
  from DELETE_id_unknown [OF assms(2) this]
  show "code (fst (DELETE_id ?e (snd (DELETE_id ?e st i)) i)) = 404" by simp
qed

theorem DELETE_unknown_id_and_known_id_witness:
  "''k7'' \<notin> id_key ` set (rows seed)
   \<and> code (fst (DELETE_id env_ok seed ''k7'')) = 404
   \<and> rows (snd (deleteKey (serve net_ok) True ''k7'' (page_seed, seed))) = rows seed
   \<and> keys (fst (deleteKey (serve net_ok) True ''k7'' (page_seed, seed))) = keys page_seed
   \<and> ''k1'' \<in> id_key ` set (rows seed)
   \<and> rows (snd (deleteKey (serve net_ok) True ''k1'' (page_seed, seed))) = [key_b, key_c]"
proof -
  have n: "\<not> offline net_ok (DELETE_key i)" "db_fault (db_env_of net_ok (DELETE_key i)) = None" for i
    by (simp_all add: net_ok_def env_ok_def)
  have a: "''k7'' \<notin> id_key ` set (rows seed)" "''k1'' \<in> id_key ` set (rows seed)"
    by (simp_all add: seed_def key_a_def key_b_def key_c_def)
  have e: "db_env_of net_ok (DELETE_key i) = env_ok" for i by (simp add: net_ok_def)
  have f: "filter (\<lambda>k. id_key k \<noteq> ''k1'') (rows seed) = [key_b, key_c]"
    by (simp add: seed_def key_a_def key_b_def key_c_def)
  from DELETE_unknown_id_and_known_id [OF n, of "''k7''" seed page_seed]
       DELETE_unknown_id_and_known_id [OF n, of "''k1''" seed page_seed] a
  show ?thesis by (simp add: e f)
qed

text \<open>
  C7: \<open>deleteKey\<close> asks for confirmation first. Declined, it leaves the page and the
  server as they were, and no request is sent. Confirmed, it sends the \<open>DELETE\<close>; when
  that succeeds the list is fetched again and one notification of type \<open>error\<close> says that
  the key was deleted; when it fails, no refresh follows, one notification of type
  \<open>error\<close> reports the failure, and the page's list is unchanged.
\<close>

theorem deleteKey_confirm_then_notify:
  fixes fetch :: "'b fetch"
  shows "deleteKey fetch False i (p, b) = (p, b)
   \<and> (succeeded (fst (fetch (DELETE_key i) b)) \<longrightarrow>
        sent (fst (deleteKey fetch True i (p, b))) = sent p @ [DELETE_key i, GET_keys (params p)]
        \<and> toast_log (fst (deleteKey fetch True i (p, b)))
            = toast_log p @ [(''API key deleted successfully!'', Toast_error)]
        \<and> showToast (fst (deleteKey fetch True i (p, b)))
        \<and> toastType (fst (deleteKey fetch True i (p, b))) = Toast_error
        \<and> keys (fst (deleteKey fetch True i (p, b)))
            = keys (fst (fetchKeys fetch (p, snd (fetch (DELETE_key i) b)))))
   \<and> (\<not> succeeded (fst (fetch (DELETE_key i) b)) \<longrightarrow>
        sent (fst (deleteKey fetch True i (p, b))) = sent p @ [DELETE_key i]
        \<and> toast_log (fst (deleteKey fetch True i (p, b)))
            = toast_log p @ [(''Failed to delete API key. Please try again.'', Toast_error)]
        \<and> showToast (fst (deleteKey fetch True i (p, b)))
        \<and> toastType (fst (deleteKey fetch True i (p, b))) = Toast_error
        \<and> keys (fst (deleteKey fetch True i (p, b))) = keys p)"
proof (intro conjI impI)
  show "deleteKey fetch False i (p, b) = (p, b)" by (rule deleteKey_declined)
next
  assume s: "succeeded (fst (fetch (DELETE_key i) b))"
  note d = deleteKey_succeeded [of fetch i b p, OF s]
  show "sent (fst (deleteKey fetch True i (p, b))) = sent p @ [DELETE_key i, GET_keys (params p)]"
    by (simp add: d showToastNotification_def fetchKeys_frame)
  show "toast_log (fst (deleteKey fetch True i (p, b)))
            = toast_log p @ [(''API key deleted successfully!'', Toast_error)]"
    by (simp add: d showToastNotification_def fetchKeys_frame)
  show "showToast (fst (deleteKey fetch True i (p, b)))"
    by (simp add: d showToastNotification_def)
  show "toastType (fst (deleteKey fetch True i (p, b))) = Toast_error"
    by (simp add: d showToastNotification_def)
  show "keys (fst (deleteKey fetch True i (p, b)))
            = keys (fst (fetchKeys fetch (p, snd (fetch (DELETE_key i) b))))"
    by (simp add: d showToastNotification_def fetchKeys_keys split: sum.splits)
next
  assume s: "\<not> succeeded (fst (fetch (DELETE_key i) b))"
  note d = deleteKey_failed [of fetch i b p, OF s]
  show "sent (fst (deleteKey fetch True i (p, b))) = sent p @ [DELETE_key i]"
    by (simp add: d showToastNotification_def)
  show "toast_log (fst (deleteKey fetch True i (p, b)))
            = toast_log p @ [(''Failed to delete API key. Please try again.'', Toast_error)]"
    by (simp add: d showToastNotification_def)
  show "showToast (fst (deleteKey fetch True i (p, b)))"
    by (simp add: d showToastNotification_def)
  show "toastType (fst (deleteKey fetch True i (p, b))) = Toast_error"
    by (simp add: d showToastNotification_def)
  show "keys (fst (deleteKey fetch True i (p, b))) = keys p"
    by (simp add: d showToastNotification_def)
qed

theorem deleteKey_confirm_then_notify_witness:
  "succeeded (fst (serve net_ok (DELETE_key ''k1'') seed))
   \<and> sent (fst (deleteKey (serve net_ok) True ''k1'' (page_seed, seed)))
       = [DELETE_key ''k1'', GET_keys []]
   \<and> toast_log (fst (deleteKey (serve net_ok) True ''k1'' (page_seed, seed)))
       = [(''API key deleted successfully!'', Toast_error)]
   \<and> \<not> succeeded (fst (serve net_down (DELETE_key ''k1'') seed))
   \<and> sent (fst (deleteKey (serve net_down) True ''k1'' (page_seed, seed))) = [DELETE_key ''k1'']
   \<and> toast_log (fst (deleteKey (serve net_down) True ''k1'' (page_seed, seed)))
       = [(''Failed to delete API key. Please try again.'', Toast_error)]
   \<and> keys (fst (deleteKey (serve net_down) True ''k1'' (page_seed, seed))) = keys page_seed
   \<and> deleteKey (serve net_ok) False ''k1'' (page_seed, seed) = (page_seed, seed)"
proof -
  have a: "succeeded (fst (serve net_ok (DELETE_key ''k1'') seed))"
    by (simp add: serve_eval)
  have b: "\<not> succeeded (fst (serve net_down (DELETE_key ''k1'') seed))"
    by (simp add: serve_def net_down_def succeeded_def)
  have c: "sent page_seed = []" "toast_log page_seed = []" "params page_seed = []"
    by (simp_all add: page_eval params_def)
  from deleteKey_confirm_then_notify [of "serve net_ok" "''k1''" page_seed seed]
       deleteKey_confirm_then_notify [of "serve net_down" "''k1''" page_seed seed] a b c
  show ?thesis by simp
qed

section \<open>Toggling the status\<close>

lemma find_unique_id:
  assumes "distinct (map id_key rs)" "set ks \<subseteq> set rs" "k \<in> set ks" "id_key k = i"
  shows "find (\<lambda>r. id_key r = i) ks = Some k"
proof (cases "find (\<lambda>r. id_key r = i) ks")
  case None
  with assms(3,4) show ?thesis by (auto simp: find_None_iff)
next
  case (Some x)
  from find_id_in [OF Some] have "x \<in> set ks" "id_key x = i" .
  with assms have "x = k"
    using distinct_id_eq [of rs x k] by auto
  with Some show ?thesis by simp
qed

lemma fetchKeys_serve_keys:
  assumes "\<not> offline w (GET_keys (params p))"
    and "db_fault (db_env_of w (GET_keys (params p))) = None"
  shows "keys (fst (fetchKeys (serve w) (p, st))) =
           newest_first (filter (\<lambda>k.
             (\<forall>s. searchParams_get (params p) ''status'' = Some s \<longrightarrow> s \<noteq> [] \<longrightarrow> s \<noteq> ''all''
                \<longrightarrow> status k = s) \<and>
             (\<forall>en. searchParams_get (params p) ''environment'' = Some en \<longrightarrow> en \<noteq> []
                \<longrightarrow> en \<noteq> ''all'' \<longrightarrow> environment k = en)) (rows st))"
  using assms
  by (simp add: fetchKeys_keys serve_def case_prod_beta GET_reachable ok_def)

lemma fetchKeys_filters [simp]:
  "filterStatus (fst (fetchKeys fetch (p, b))) = filterStatus p"
  "filterEnvironment (fst (fetchKeys fetch (p, b))) = filterEnvironment p"
  by (simp_all add: fetchKeys_def do_fetch_eq Let_def split: sum.splits)

lemma fetchKeys_serve_rows [simp]: "rows (snd (fetchKeys (serve w) (p, st))) = rows st"
  by (simp add: fetchKeys_frame)

lemma params_filters:
  assumes "filterStatus q = filterStatus p" "filterEnvironment q = filterEnvironment p"
  shows "params q = params p"
  using assms by (simp add: params_def)

lemma listed_after_refresh:
  assumes d: "distinct (map id_key (rows st))"
    and s: "find (\<lambda>k. id_key k = i) (rows st) = Some row"
    and n: "\<not> offline w (GET_keys (params p))"
           "db_fault (db_env_of w (GET_keys (params p))) = None"
    and fs: "filterStatus p = ''all''"
    and fe: "filterEnvironment p = ''all'' \<or> filterEnvironment p = environment row"
  shows "find (\<lambda>k. id_key k = i) (keys (fst (fetchKeys (serve w) (p, st)))) = Some row"
proof -
  from find_id_in [OF s] have k: "row \<in> set (rows st)" "id_key row = i" .
  have st: "searchParams_get (params p) ''status'' = None"
    using fs by (simp add: params_def)
  have en: "searchParams_get (params p) ''environment'' = None
            \<or> searchParams_get (params p) ''environment'' = Some (environment row)"
    using fs fe by (auto simp: params_def)
  let ?ks = "keys (fst (fetchKeys (serve w) (p, st)))"
  have ks: "?ks = newest_first (filter (\<lambda>k.
             (\<forall>s. searchParams_get (params p) ''status'' = Some s \<longrightarrow> s \<noteq> [] \<longrightarrow> s \<noteq> ''all''
                \<longrightarrow> status k = s) \<and>
             (\<forall>en. searchParams_get (params p) ''environment'' = Some en \<longrightarrow> en \<noteq> []
                \<longrightarrow> en \<noteq> ''all'' \<longrightarrow> environment k = en)) (rows st))"
    by (rule fetchKeys_serve_keys [OF n])
  have sub: "set ?ks \<subseteq> set (rows st)"
    unfolding ks by (auto simp: newest_first_def)
  have mem: "row \<in> set ?ks"
    unfolding ks using k(1) st en by (auto simp: newest_first_def)
  show ?thesis
    by (rule find_unique_id [OF d sub mem k(2)])
qed

lemma toggleStatus_succeeded:
  assumes "find (\<lambda>k. id_key k = i) (keys p) = Some key"
    and "succeeded (fst (serve w (PATCH_key i (no_update\<lparr>upd_status :=
                        Some (if status key = ''active'' then ''revoked'' else ''active'')\<rparr>)) st))"
  shows "toggleStatus (serve w) i (p, st) =
           fetchKeys (serve w)
             (p\<lparr>sent := sent p @ [PATCH_key i (no_update\<lparr>upd_status :=
                        Some (if status key = ''active'' then ''revoked'' else ''active'')\<rparr>)]\<rparr>,
              snd (serve w (PATCH_key i (no_update\<lparr>upd_status :=
                        Some (if status key = ''active'' then ''revoked'' else ''active'')\<rparr>)) st))"
  using assms by (simp add: toggleStatus_def do_fetch_eq)

lemma map_id_key_same:
  assumes "\<And>r. id_key (f r) = id_key r"
  shows "map id_key (map f ks) = map id_key ks"
  using assms by (induction ks) simp_all

text \<open>
  Two toggles restore the table when, at each of them, the page lists the record as it is
  stored. The theorem of this section derives that from what the page did before.
\<close>

lemma two_toggles_of_listed_record:
  assumes c: "constraints_hold (rows st)"
    and v: "find (\<lambda>k. id_key k = i) (keys p) = Some key"
    and s: "find (\<lambda>k. id_key k = i) (rows st) = Some key"
    and n1: "\<And>u. \<not> offline w1 (PATCH_key i u) \<and> db_fault (db_env_of w1 (PATCH_key i u)) = None"
    and n2: "\<And>u. \<not> offline w2 (PATCH_key i u) \<and> db_fault (db_env_of w2 (PATCH_key i u)) = None"
    and l: "find (\<lambda>k. id_key k = i) (keys (fst (toggleStatus (serve w1) i (p, st))))
              = find (\<lambda>k. id_key k = i) (rows (snd (toggleStatus (serve w1) i (p, st))))"
  shows "filter (\<lambda>r. id_key r = i) (rows st) = [key]
       \<and> (\<exists>t. rows (snd (toggleStatus (serve w1) i (p, st))) =
            map (\<lambda>r. if id_key r = i
                      then r\<lparr>status := (if status r = ''active'' then ''revoked'' else ''active''),
                             updated_at := t\<rparr>
                      else r) (rows st))
       \<and> (\<exists>t. rows (snd (toggleStatus (serve w2) i (toggleStatus (serve w1) i (p, st)))) =
            map (\<lambda>r. if id_key r = i then r\<lparr>updated_at := t\<rparr> else r) (rows st))"
proof -
  let ?u1 = "no_update\<lparr>upd_status := Some ((if status key = ''active'' then ''revoked'' else ''active''))\<rparr>"
  let ?e1 = "db_env_of w1 (PATCH_key i ?u1)"
  let ?f1 = "\<lambda>r. if id_key r = i then update_updated_at_column ?e1 (apply_update ?u1 r) else r"
  let ?W1 = "toggleStatus (serve w1) i (p, st)"
  from find_id_in [OF s] have k: "key \<in> set (rows st)" "id_key key = i" .
  note ck = constraints_holdD [OF c k(1)]
  have only: "r = key" if "r \<in> set (rows st)" "id_key r = i" for r
    using distinct_id_eq [OF ck(1) that(1) k(1)] that(2) k(2) by simp
  have sec: "secret key \<notin> set (map secret (filter (\<lambda>r. id_key r \<noteq> i) (rows st)))"
    by (rule other_secrets [OF ck(1,2) k])
  have p1: "succeeded (fst (serve w1 (PATCH_key i ?u1) st))"
    and q1: "rows (snd (serve w1 (PATCH_key i ?u1) st)) = map ?f1 (rows st)"
    using serve_PATCH_ok [of w1 i ?u1 st key] n1 s ck(4) sec status_check_flip
    by simp_all
  have r1: "rows (snd ?W1) = map ?f1 (rows st)"
    using toggleStatus_rows [OF v p1] q1 by simp
  have "find (\<lambda>k. id_key k = i) (map ?f1 (rows st))
          = map_option ?f1 (find (\<lambda>k. id_key k = i) (rows st))"
    by (rule find_map_same_id) (simp add: update_updated_at_column_def)
  with s have s1: "find (\<lambda>k. id_key k = i) (rows (snd ?W1)) = Some (?f1 key)"
    by (simp add: r1)
  with l have v1: "find (\<lambda>k. id_key k = i) (keys (fst ?W1)) = Some (?f1 key)" by simp
  have st1: "status (?f1 key) = (if status key = ''active'' then ''revoked'' else ''active'')"
    using k by (simp add: update_updated_at_column_def)
  let ?u2 = "no_update\<lparr>upd_status := Some ((if status (?f1 key) = ''active'' then ''revoked'' else ''active''))\<rparr>"
  let ?e2 = "db_env_of w2 (PATCH_key i ?u2)"
  let ?f2 = "\<lambda>r. if id_key r = i then update_updated_at_column ?e2 (apply_update ?u2 r) else r"
  have oth: "filter (\<lambda>r. id_key r \<noteq> i) (map ?f1 (rows st)) = filter (\<lambda>r. id_key r \<noteq> i) (rows st)"
    by (rule others_map_same_id) (simp_all add: update_updated_at_column_def)
  have sec1: "secret (apply_update ?u2 (?f1 key))
                \<notin> set (map secret (filter (\<lambda>r. id_key r \<noteq> i) (rows (snd ?W1))))"
    using sec k by (simp add: r1 oth update_updated_at_column_def)
  have env1: "environment_check (environment (apply_update ?u2 (?f1 key)))"
    using ck(4) k by (simp add: update_updated_at_column_def)
  have p2: "succeeded (fst (serve w2 (PATCH_key i ?u2) (snd ?W1)))"
    and q2: "rows (snd (serve w2 (PATCH_key i ?u2) (snd ?W1))) = map ?f2 (rows (snd ?W1))"
    using serve_PATCH_ok [of w2 i ?u2 "snd ?W1" "?f1 key"] n2 s1 env1 sec1 status_check_flip
    by simp_all
  have "rows (snd (toggleStatus (serve w2) i (fst ?W1, snd ?W1))) = map ?f2 (rows (snd ?W1))"
    using toggleStatus_rows [OF v1 p2] q2 by simp
  then have r2: "rows (snd (toggleStatus (serve w2) i ?W1)) = map ?f2 (map ?f1 (rows st))"
    by (simp add: r1)
  have undo: "?f2 (?f1 r) = (if id_key r = i then r\<lparr>updated_at := db_now ?e2\<rparr> else r)"
    if "r \<in> set (rows st)" for r
  proof (cases "id_key r = i")
    case True
    with that have "r = key" by (rule only)
    with True k ck(3) show ?thesis
      using flip_flip [OF ck(3)]
      by (simp add: update_updated_at_column_def)
  next
    case False
    then show ?thesis by simp
  qed
  define t2 where "t2 = db_now ?e2"
  have m2: "map ?f2 (map ?f1 (rows st))
          = map (\<lambda>r. if id_key r = i then r\<lparr>updated_at := t2\<rparr> else r) (rows st)"
    unfolding map_map t2_def using undo by (intro map_cong) simp_all
  have two: "\<exists>t. rows (snd (toggleStatus (serve w2) i ?W1)) =
            map (\<lambda>r. if id_key r = i then r\<lparr>updated_at := t\<rparr> else r) (rows st)"
    by (rule exI [of _ t2]) (simp only: r2 m2)
  have f1: "?f1 r = (if id_key r = i
                      then r\<lparr>status := (if status r = ''active'' then ''revoked'' else ''active''), updated_at := db_now ?e1\<rparr> else r)"
    if "r \<in> set (rows st)" for r
  proof (cases "id_key r = i")
    case True
    with that have "r = key" by (rule only)
    with True show ?thesis by (simp add: update_updated_at_column_def)
  next
    case False
    then show ?thesis by simp
  qed
  define t1 where "t1 = db_now ?e1"
  have m1: "map ?f1 (rows st) = map (\<lambda>r. if id_key r = i
                      then r\<lparr>status := (if status r = ''active'' then ''revoked'' else ''active''), updated_at := t1\<rparr> else r) (rows st)"
    unfolding t1_def using f1 by (intro map_cong) simp_all
  have one: "\<exists>t. rows (snd ?W1) =
            map (\<lambda>r. if id_key r = i
                      then r\<lparr>status := (if status r = ''active'' then ''revoked'' else ''active''), updated_at := t\<rparr>
                      else r) (rows st)"
    by (rule exI [of _ t1]) (simp only: r1 m1)
  have uniq: "filter (\<lambda>r. id_key r = i) (rows st) = [key]"
    using only_row_with_id [OF ck(1) k(1)] k(2) by simp
  from uniq one two show ?thesis by (intro conjI)
qed

text \<open>
  C5, as stated, fails. \<open>toggleStatus\<close> computes the new status from the page's copy of
  the record, and \<open>fetchKeys\<close> keeps the old list when a refresh fails. So when the
  refresh after the first toggle fails, the second toggle sends \<open>revoked\<close> again: both
  updates succeed, no error is shown, and the record ends \<open>revoked\<close>, not \<open>active\<close>.
  And with the status filter on \<open>active\<close>, the first toggle takes the record out of the
  list, and the second call does nothing: one update is sent and the record stays
  \<open>revoked\<close>.
\<close>

theorem toggleStatus_stale_list_counterexample:
  "status key_a = ''active''
   \<and> map id_key (rows (snd (toggleStatus (serve net_ok) ''k1''
        (toggleStatus (serve net_no_refresh) ''k1''
          (fetchKeys (serve net_ok) (initial_page, seed)))))) = [''k1'', ''k2'', ''k3'']
   \<and> map status (rows (snd (toggleStatus (serve net_ok) ''k1''
        (toggleStatus (serve net_no_refresh) ''k1''
          (fetchKeys (serve net_ok) (initial_page, seed))))))
       = [''revoked'', ''revoked'', ''active'']
   \<and> alerts (fst (toggleStatus (serve net_ok) ''k1''
        (toggleStatus (serve net_no_refresh) ''k1''
          (fetchKeys (serve net_ok) (initial_page, seed))))) = []
   \<and> sent (fst (toggleStatus (serve net_ok) ''k1''
        (toggleStatus (serve net_no_refresh) ''k1''
          (fetchKeys (serve net_ok) (initial_page, seed)))))
       = [GET_keys [],
          PATCH_key ''k1'' (no_update\<lparr>upd_status := Some ''revoked''\<rparr>), GET_keys [],
          PATCH_key ''k1'' (no_update\<lparr>upd_status := Some ''revoked''\<rparr>), GET_keys []]
   \<and> map status (rows (snd (toggleStatus (serve net_ok) ''k1''
        (toggleStatus (serve net_ok) ''k1''
          (fetchKeys (serve net_ok) (page_active, seed))))))
       = [''revoked'', ''revoked'', ''active'']
   \<and> sent (fst (toggleStatus (serve net_ok) ''k1''
        (toggleStatus (serve net_ok) ''k1''
          (fetchKeys (serve net_ok) (page_active, seed)))))
       = [GET_keys [(''status'', ''active'')],
          PATCH_key ''k1'' (no_update\<lparr>upd_status := Some ''revoked''\<rparr>),
          GET_keys [(''status'', ''active'')]]"
proof -
  note ev = toggleStatus_def do_fetch_def fetchKeys_def params_def serve_eval
    GET_reachable newest_first_def initial_page_def net_no_refresh_def page_active_def
  have f0: "fetchKeys (serve net_ok) (initial_page, seed)
      = (initial_page\<lparr>keys := [key_b, key_c, key_a], loading := False, sent := [GET_keys []]\<rparr>,
         \<lparr>rows = [key_a, key_b, key_c], calls = [Call_select]\<rparr>)"
    by (simp add: ev)
  have t1: "toggleStatus (serve net_no_refresh) ''k1''
       (initial_page\<lparr>keys := [key_b, key_c, key_a], loading := False, sent := [GET_keys []]\<rparr>,
         \<lparr>rows = [key_a, key_b, key_c], calls = [Call_select]\<rparr>)
      = (initial_page\<lparr>keys := [key_b, key_c, key_a], loading := False,
            error := Some ''Failed to fetch'', console := [''Error fetching keys:''],
            sent := [GET_keys [], PATCH_key ''k1'' (no_update\<lparr>upd_status := Some ''revoked''\<rparr>),
                     GET_keys []]\<rparr>,
         \<lparr>rows = [key_a\<lparr>status := ''revoked'', updated_at := 1000\<rparr>, key_b, key_c],
          calls = [Call_select, Call_update]\<rparr>)"
    by (simp add: ev)
  have t2: "toggleStatus (serve net_ok) ''k1''
        (initial_page\<lparr>keys := [key_b, key_c, key_a], loading := False,
            error := Some ''Failed to fetch'', console := [''Error fetching keys:''],
            sent := [GET_keys [], PATCH_key ''k1'' (no_update\<lparr>upd_status := Some ''revoked''\<rparr>),
                     GET_keys []]\<rparr>,
         \<lparr>rows = [key_a\<lparr>status := ''revoked'', updated_at := 1000\<rparr>, key_b, key_c],
          calls = [Call_select, Call_update]\<rparr>)
      = (initial_page\<lparr>keys := [key_b, key_c, key_a\<lparr>status := ''revoked'', updated_at := 1000\<rparr>],
            loading := False, error := None, console := [''Error fetching keys:''],
            sent := [GET_keys [], PATCH_key ''k1'' (no_update\<lparr>upd_status := Some ''revoked''\<rparr>),
                     GET_keys [], PATCH_key ''k1'' (no_update\<lparr>upd_status := Some ''revoked''\<rparr>),
                     GET_keys []]\<rparr>,
         \<lparr>rows = [key_a\<lparr>status := ''revoked'', updated_at := 1000\<rparr>, key_b, key_c],
          calls = [Call_select, Call_update, Call_update, Call_select]\<rparr>)"
    by (simp add: ev)
  have g0: "fetchKeys (serve net_ok) (page_active, seed)
      = (initial_page\<lparr>filterStatus := ''active'', keys := [key_c, key_a], loading := False,
           sent := [GET_keys [(''status'', ''active'')]]\<rparr>,
         \<lparr>rows = [key_a, key_b, key_c], calls = [Call_select]\<rparr>)"
    by (simp add: ev)
  have u1: "toggleStatus (serve net_ok) ''k1''
       (initial_page\<lparr>filterStatus := ''active'', keys := [key_c, key_a], loading := False,
           sent := [GET_keys [(''status'', ''active'')]]\<rparr>,
         \<lparr>rows = [key_a, key_b, key_c], calls = [Call_select]\<rparr>)
      = (initial_page\<lparr>filterStatus := ''active'', keys := [key_c], loading := False,
           sent := [GET_keys [(''status'', ''active'')],
                    PATCH_key ''k1'' (no_update\<lparr>upd_status := Some ''revoked''\<rparr>),
                    GET_keys [(''status'', ''active'')]]\<rparr>,
         \<lparr>rows = [key_a\<lparr>status := ''revoked'', updated_at := 1000\<rparr>, key_b, key_c],
          calls = [Call_select, Call_update, Call_select]\<rparr>)"
    by (simp add: ev)
  have u2: "toggleStatus (serve net_ok) ''k1''
       (initial_page\<lparr>filterStatus := ''active'', keys := [key_c], loading := False,
           sent := [GET_keys [(''status'', ''active'')],
                    PATCH_key ''k1'' (no_update\<lparr>upd_status := Some ''revoked''\<rparr>),
                    GET_keys [(''status'', ''active'')]]\<rparr>,
         \<lparr>rows = [key_a\<lparr>status := ''revoked'', updated_at := 1000\<rparr>, key_b, key_c],
          calls = [Call_select, Call_update, Call_select]\<rparr>)
      = (initial_page\<lparr>filterStatus := ''active'', keys := [key_c], loading := False,
           sent := [GET_keys [(''status'', ''active'')],
                    PATCH_key ''k1'' (no_update\<lparr>upd_status := Some ''revoked''\<rparr>),
                    GET_keys [(''status'', ''active'')]]\<rparr>,
         \<lparr>rows = [key_a\<lparr>status := ''revoked'', updated_at := 1000\<rparr>, key_b, key_c],
          calls = [Call_select, Call_update, Call_select]\<rparr>)"
    by (simp add: toggleStatus_def key_c_def)
  show ?thesis
    unfolding f0 t1 t2 g0 u1 u2
    by (simp add: key_a_def key_b_def key_c_def initial_page_def)
qed

text \<open>
  C5, amended: starting from a list that has just been refreshed, with the status filter on
  \<open>all\<close> and the record admitted by the environment filter, in a table that satisfies
  its constraints, and with every request reaching the store: the first toggle flips the
  status of the one row with that id and refreshes its \<open>updated_at\<close>; after the second,
  the table is the original one except for \<open>updated_at\<close> of that record. No other row
  changes.
\<close>

theorem toggleStatus_twice:
  assumes c: "constraints_hold (rows st)"
    and s: "find (\<lambda>k. id_key k = i) (rows st) = Some row"
    and n0: "\<And>req. \<not> offline w0 req \<and> db_fault (db_env_of w0 req) = None"
    and n1: "\<And>req. \<not> offline w1 req \<and> db_fault (db_env_of w1 req) = None"
    and n2: "\<And>req. \<not> offline w2 req \<and> db_fault (db_env_of w2 req) = None"
    and fs: "filterStatus p = ''all''"
    and fe: "filterEnvironment p = ''all'' \<or> filterEnvironment p = environment row"
  shows "filter (\<lambda>r. id_key r = i) (rows st) = [row]
       \<and> (\<exists>t. rows (snd (toggleStatus (serve w1) i (fetchKeys (serve w0) (p, st)))) =
            map (\<lambda>r. if id_key r = i
                      then r\<lparr>status := (if status r = ''active'' then ''revoked'' else ''active''),
                             updated_at := t\<rparr>
                      else r) (rows st))
       \<and> (\<exists>t. rows (snd (toggleStatus (serve w2) i
                          (toggleStatus (serve w1) i (fetchKeys (serve w0) (p, st))))) =
            map (\<lambda>r. if id_key r = i then r\<lparr>updated_at := t\<rparr> else r) (rows st))"
proof -
  define p0 where "p0 = fst (fetchKeys (serve w0) (p, st))"
  define st0 where "st0 = snd (fetchKeys (serve w0) (p, st))"
  have W0: "fetchKeys (serve w0) (p, st) = (p0, st0)"
    by (simp add: p0_def st0_def)
  have r0: "rows st0 = rows st" by (simp add: st0_def)
  from find_id_in [OF s] have k: "row \<in> set (rows st)" "id_key row = i" .
  note ck = constraints_holdD [OF c k(1)]
  have c0: "constraints_hold (rows st0)" using c by (simp add: r0)
  have s0: "find (\<lambda>k. id_key k = i) (rows st0) = Some row" using s by (simp add: r0)
  have v0: "find (\<lambda>k. id_key k = i) (keys p0) = Some row"
    unfolding p0_def using n0 by (intro listed_after_refresh [OF ck(1) s _ _ fs fe]) simp_all
  have f0: "filterStatus p0 = ''all''"
           "filterEnvironment p0 = ''all'' \<or> filterEnvironment p0 = environment row"
    using fs fe by (simp_all add: p0_def)
  let ?u1 = "no_update\<lparr>upd_status := Some (if status row = ''active'' then ''revoked'' else ''active'')\<rparr>"
  let ?e1 = "db_env_of w1 (PATCH_key i ?u1)"
  define f1 where "f1 = (\<lambda>r. if id_key r = i then update_updated_at_column ?e1 (apply_update ?u1 r) else r)"
  define p0' where "p0' = p0\<lparr>sent := sent p0 @ [PATCH_key i ?u1]\<rparr>"
  define st1 where "st1 = snd (serve w1 (PATCH_key i ?u1) st0)"
  have sec: "secret row \<notin> set (map secret (filter (\<lambda>r. id_key r \<noteq> i) (rows st0)))"
    unfolding r0 by (rule other_secrets [OF ck(1,2) k])
  have p1: "succeeded (fst (serve w1 (PATCH_key i ?u1) st0))"
    and q1: "rows st1 = map f1 (rows st)"
    unfolding st1_def f1_def
    using serve_PATCH_ok [of w1 i ?u1 st0 row] n1 s0 ck(4) sec status_check_flip
    by (simp_all add: r0)
  have W1: "toggleStatus (serve w1) i (p0, st0) = fetchKeys (serve w1) (p0', st1)"
    unfolding p0'_def st1_def by (rule toggleStatus_succeeded [OF v0 p1])
  have idf: "id_key (f1 r) = id_key r" for r
    by (simp add: f1_def update_updated_at_column_def)
  have "map id_key (rows st1) = map id_key (rows st)"
    unfolding q1 by (rule map_id_key_same) (rule idf)
  with ck(1) have d1: "distinct (map id_key (rows st1))" by simp
  have "find (\<lambda>k. id_key k = i) (map f1 (rows st)) = map_option f1 (find (\<lambda>k. id_key k = i) (rows st))"
    by (rule find_map_same_id) (rule idf)
  with s have s1: "find (\<lambda>k. id_key k = i) (rows st1) = Some (f1 row)"
    by (simp add: q1)
  have e1: "environment (f1 row) = environment row"
    by (simp add: f1_def update_updated_at_column_def)
  have f0': "filterStatus p0' = ''all''"
            "filterEnvironment p0' = ''all'' \<or> filterEnvironment p0' = environment (f1 row)"
    using f0 by (simp_all add: p0'_def e1)
  have v1: "find (\<lambda>k. id_key k = i) (keys (fst (fetchKeys (serve w1) (p0', st1)))) = Some (f1 row)"
    using n1 by (intro listed_after_refresh [OF d1 s1 _ _ f0']) simp_all
  have l: "find (\<lambda>k. id_key k = i) (keys (fst (toggleStatus (serve w1) i (p0, st0))))
             = find (\<lambda>k. id_key k = i) (rows (snd (toggleStatus (serve w1) i (p0, st0))))"
    by (simp add: W1 v1 s1)
  from two_toggles_of_listed_record [OF c0 v0 s0 _ _ l, of w2] n1 n2
  show ?thesis by (simp add: W0 r0)
qed

theorem toggleStatus_twice_witness:
  "constraints_hold (rows seed)
   \<and> find (\<lambda>k. id_key k = ''k1'') (rows seed) = Some key_a
   \<and> filterStatus initial_page = ''all'' \<and> filterEnvironment initial_page = ''all''
   \<and> (\<exists>t. rows (snd (toggleStatus (serve net_ok) ''k1''
                        (fetchKeys (serve net_ok) (initial_page, seed))))
            = [key_a\<lparr>status := ''revoked'', updated_at := t\<rparr>, key_b, key_c])
   \<and> (\<exists>t. rows (snd (toggleStatus (serve net_ok) ''k1''
                        (toggleStatus (serve net_ok) ''k1''
                           (fetchKeys (serve net_ok) (initial_page, seed)))))
            = [key_a\<lparr>updated_at := t\<rparr>, key_b, key_c])"
proof -
  have c: "constraints_hold (rows seed)"
    by (simp add: constraints_hold_def seed_def key_a_def key_b_def key_c_def
          status_check_def environment_check_def)
  have s: "find (\<lambda>k. id_key k = ''k1'') (rows seed) = Some key_a"
    by (simp add: seed_def key_a_def)
  have n: "\<not> offline net_ok req \<and> db_fault (db_env_of net_ok req) = None" for req
    by (simp add: net_ok_def env_ok_def)
  have fs: "filterStatus initial_page = ''all''" and fe: "filterEnvironment initial_page = ''all''"
    by (simp_all add: initial_page_def)
  from fe have fe': "filterEnvironment initial_page = ''all''
                     \<or> filterEnvironment initial_page = environment key_a" by simp
  have m: "map (\<lambda>r. if id_key r = ''k1'' then f r else r) (rows seed) = [f key_a, key_b, key_c]" for f
    by (simp add: seed_def key_a_def key_b_def key_c_def)
  have a: "status key_a = ''active''" by (simp add: key_a_def)
  from toggleStatus_twice [OF c s n n n fs fe'] c s fs fe show ?thesis
    by (simp add: m a)
qed

section \<open>Rotating the secret\<close>

text \<open>
  C6, as stated, fails: the prefix of the new secret comes from the environment in the
  page's copy of the record, which is not the record's current one when the list is stale.
  A save that moves the first key to \<open>staging\<close> and whose refresh fails leaves
  \<open>production\<close> in the page's copy; the rotation that follows gives the \<open>staging\<close>
  record a \<open>groot_live_\<close> secret.
\<close>

theorem rotateKey_stale_environment_counterexample:
  "map id_key (rows (snd (rotateKey (serve net_ok) rand_abc ''k1''
        (saveEdit (serve net_no_refresh) (page_editing, seed))))) = [''k1'', ''k2'', ''k3'']
   \<and> map environment (rows (snd (rotateKey (serve net_ok) rand_abc ''k1''
        (saveEdit (serve net_no_refresh) (page_editing, seed)))))
       = [''staging'', ''staging'', ''development'']
   \<and> map secret (rows (snd (rotateKey (serve net_ok) rand_abc ''k1''
        (saveEdit (serve net_no_refresh) (page_editing, seed)))))
       = [''groot_live_abc123def456ghi789'', ''groot_test_8ddm'', ''groot_dev_xx33'']"
proof -
  note ev = saveEdit_def rotateKey_def do_fetch_def fetchKeys_def params_def serve_eval
    GET_reachable newest_first_def initial_page_def page_seed_def page_editing_def
    net_no_refresh_def showToastNotification_def trim_def is_space_def utf8_def utf8_of_def
    generateSecret_def rand_abc_def
  have s1: "rows (snd (saveEdit (serve net_no_refresh) (page_editing, seed)))
              = [key_a\<lparr>name := utf8 [75, 101, 121], environment := ''staging'', updated_at := 1000\<rparr>,
                 key_b, key_c]
            \<and> keys (fst (saveEdit (serve net_no_refresh) (page_editing, seed))) = [key_b, key_c, key_a]
            \<and> clock (fst (saveEdit (serve net_no_refresh) (page_editing, seed))) = 0"
    by (simp add: ev)
  obtain p1 st1 where w: "saveEdit (serve net_no_refresh) (page_editing, seed) = (p1, st1)"
    by (cases "saveEdit (serve net_no_refresh) (page_editing, seed)")
  with s1 have r1: "rows st1 = [key_a\<lparr>name := utf8 [75, 101, 121], environment := ''staging'', updated_at := 1000\<rparr>,
                 key_b, key_c]" and k1: "keys p1 = [key_b, key_c, key_a]" and c1: "clock p1 = 0"
    by simp_all
  have "rows (snd (rotateKey (serve net_ok) rand_abc ''k1'' (p1, st1)))
          = [key_a\<lparr>name := utf8 [75, 101, 121], environment := ''staging'',
                   secret := ''groot_live_abc123def456ghi789'', last_used := Some 0,
                   updated_at := 1000\<rparr>, key_b, key_c]"
    by (simp add: rotateKey_def do_fetch_def k1 c1 fetchKeys_frame case_prod_beta
          generateSecret_def rand_abc_def)
       (simp add: serve_eval r1)
  then show ?thesis
    by (simp add: w key_a_def key_b_def key_c_def)
qed

text \<open>
  C6, amended: for a record that the page lists and the store holds, whose \<open>PATCH\<close>
  reaches the store and whose new secret no other row holds: \<open>rotateKey\<close> replaces the
  stored secret by \<open>groot_\<close>, the prefix (\<open>live\<close>, \<open>test\<close> or \<open>dev\<close>) of the
  environment in the page's copy of the record, \<open>_\<close> and the three random draws, sets
  \<open>last_used\<close> to the current time, and changes nothing else in the stored row but
  \<open>updated_at\<close> (name, scopes and status stay); the request is followed by a refresh of
  the list.
\<close>

theorem rotateKey_replaces_secret:
  assumes c: "constraints_hold (rows st)"
    and v: "find (\<lambda>k. id_key k = i) (keys p) = Some key"
    and s: "find (\<lambda>k. id_key k = i) (rows st) = Some row"
    and g: "new = ''groot_''
                  @ (if environment key = ''production'' then ''live''
                     else if environment key = ''staging'' then ''test'' else ''dev'')
                  @ ''_'' @ r1 @ r2 @ r3"
    and r: "req = PATCH_key i (no_update\<lparr>upd_secret := Some new,
                                         upd_last_used := Some (Some (int (clock p)))\<rparr>)"
    and n: "\<not> offline w req" "db_fault (db_env_of w req) = None"
    and f: "new \<notin> set (map secret (filter (\<lambda>r. id_key r \<noteq> i) (rows st)))"
  shows "rows (snd (rotateKey (serve w) (r1, r2, r3) i (p, st))) =
           map (\<lambda>r. if id_key r = i
                     then r\<lparr>secret := new, last_used := Some (int (clock p)),
                            updated_at := db_now (db_env_of w req)\<rparr>
                     else r) (rows st)
       \<and> find (\<lambda>k. id_key k = i) (rows (snd (rotateKey (serve w) (r1, r2, r3) i (p, st)))) =
           Some (row\<lparr>secret := new, last_used := Some (int (clock p)),
                     updated_at := db_now (db_env_of w req)\<rparr>)
       \<and> sent (fst (rotateKey (serve w) (r1, r2, r3) i (p, st)))
           = sent p @ [req, GET_keys (params p)]"
proof -
  have gen: "generateSecret (r1, r2, r3) (environment key) = new"
    by (simp add: generateSecret_def g)
  let ?u = "no_update\<lparr>upd_secret := Some new,
                      upd_last_used := Some (Some (int (clock p)))\<rparr>"
  let ?f = "\<lambda>r. if id_key r = i
                 then r\<lparr>secret := new, last_used := Some (int (clock p)),
                        updated_at := db_now (db_env_of w req)\<rparr>
                 else r"
  from find_id_in [OF s] have k: "row \<in> set (rows st)" "id_key row = i" .
  from constraints_holdD [OF c k(1)]
  have ck: "status_check (status row)" "environment_check (environment row)" by simp_all
  have p: "succeeded (fst (serve w (PATCH_key i ?u) st))"
    and q: "rows (snd (serve w (PATCH_key i ?u) st)) = map ?f (rows st)"
    using serve_PATCH_ok [of w i ?u st row] n s ck f
    by (simp_all add: r update_updated_at_column_def)
  have rws: "rows (snd (rotateKey (serve w) (r1, r2, r3) i (p, st))) = map ?f (rows st)"
    using rotateKey_rows(1) [OF v, of w "(r1, r2, r3)" st] p q by (simp add: gen)
  have "find (\<lambda>k. id_key k = i) (map ?f (rows st)) = map_option ?f (find (\<lambda>k. id_key k = i) (rows st))"
    by (rule find_map_same_id) simp
  with s k have fnd: "find (\<lambda>k. id_key k = i) (map ?f (rows st)) = Some (?f row)" by simp
  have snt: "sent (fst (rotateKey (serve w) (r1, r2, r3) i (p, st))) = sent p @ [req, GET_keys (params p)]"
    using rotateKey_rows(2) [OF v, of w "(r1, r2, r3)" st] p by (simp add: r gen)
  from rws fnd snt k show ?thesis by simp
qed

theorem rotateKey_replaces_secret_witness:
  "constraints_hold (rows seed)
   \<and> find (\<lambda>k. id_key k = ''k1'') (keys page_seed) = Some key_a
   \<and> find (\<lambda>k. id_key k = ''k1'') (rows seed) = Some key_a
   \<and> rows (snd (rotateKey (serve net_ok) rand_abc ''k1'' (page_seed, seed)))
       = [key_a\<lparr>secret := ''groot_live_abc123def456ghi789'', last_used := Some 0,
                updated_at := 1000\<rparr>, key_b, key_c]
   \<and> sent (fst (rotateKey (serve net_ok) rand_abc ''k1'' (page_seed, seed)))
       = [PATCH_key ''k1'' (no_update\<lparr>upd_secret := Some ''groot_live_abc123def456ghi789'',
                                      upd_last_used := Some (Some 0)\<rparr>), GET_keys []]"
proof -
  have c: "constraints_hold (rows seed)"
    by (simp add: constraints_hold_def seed_def key_a_def key_b_def key_c_def
          status_check_def environment_check_def)
  have v: "find (\<lambda>k. id_key k = ''k1'') (keys page_seed) = Some key_a"
    by (simp add: page_eval key_a_def key_b_def key_c_def)
  have s: "find (\<lambda>k. id_key k = ''k1'') (rows seed) = Some key_a"
    by (simp add: seed_def key_a_def)
  have g: "''groot_live_abc123def456ghi789'' = ''groot_''
                  @ (if environment key_a = ''production'' then ''live''
                     else if environment key_a = ''staging'' then ''test'' else ''dev'')
                  @ ''_'' @ ''abc123'' @ ''def456'' @ ''ghi789''"
    by (simp add: key_a_def)
  have n: "\<not> offline net_ok r" "db_fault (db_env_of net_ok r) = None"
          "db_now (db_env_of net_ok r) = 1000" for r
    by (simp_all add: net_ok_def env_ok_def)
  have f: "''groot_live_abc123def456ghi789''
             \<notin> set (map secret (filter (\<lambda>r. id_key r \<noteq> ''k1'') (rows seed)))"
  proof -
    have "filter (\<lambda>r. id_key r \<noteq> ''k1'') (rows seed) = [key_b, key_c]"
      by (simp add: seed_def key_a_def key_b_def key_c_def)
    then show ?thesis by (simp add: key_b_def key_c_def)
  qed
  have m: "map (\<lambda>r. if id_key r = ''k1'' then f r else r) (rows seed) = [f key_a, key_b, key_c]" for f
    by (simp add: seed_def key_a_def key_b_def key_c_def)
  have q: "clock page_seed = 0" "sent page_seed = []" "params page_seed = []"
    by (simp_all add: page_eval params_def)
  from rotateKey_replaces_secret [OF c v s g refl n(1,2) f] c v s show ?thesis
    by (simp add: m n q rand_abc_def)
qed

section \<open>Notifications\<close>

text \<open>
  C8, as stated, fails for Toggle Status (and Rotate alike): on its success path the status
  is flipped in the store and no notification is produced at all; on its failure path the
  page opens a blocking \<open>alert\<close> dialog, which is not a toast: \<open>showToastNotification\<close>
  is not called and no toast is on display.
\<close>

theorem toggleStatus_silent_counterexample:
  "toast_log (fst (toggleStatus (serve net_ok) ''k1'' (page_seed, seed))) = []
   \<and> alerts (fst (toggleStatus (serve net_ok) ''k1'' (page_seed, seed))) = []
   \<and> \<not> showToast (fst (toggleStatus (serve net_ok) ''k1'' (page_seed, seed)))
   \<and> map status (rows (snd (toggleStatus (serve net_ok) ''k1'' (page_seed, seed))))
       = [''revoked'', ''revoked'', ''active'']
   \<and> toast_log (fst (toggleStatus (serve net_down) ''k1'' (page_seed, seed))) = []
   \<and> \<not> showToast (fst (toggleStatus (serve net_down) ''k1'' (page_seed, seed)))
   \<and> alerts (fst (toggleStatus (serve net_down) ''k1'' (page_seed, seed)))
       = [''Failed to toggle API key status. Please try again.'']"
proof -
  have ok: "toggleStatus (serve net_ok) ''k1'' (page_seed, seed)
      = (page_seed\<lparr>keys := [key_b, key_c, key_a\<lparr>status := ''revoked'', updated_at := 1000\<rparr>],
                   sent := [PATCH_key ''k1'' (no_update\<lparr>upd_status := Some ''revoked''\<rparr>),
                            GET_keys []]\<rparr>,
         \<lparr>rows = [key_a\<lparr>status := ''revoked'', updated_at := 1000\<rparr>, key_b, key_c],
          calls = [Call_update, Call_select]\<rparr>)"
    by (simp add: toggleStatus_def page_eval do_fetch_def fetchKeys_def params_def
          serve_eval GET_reachable newest_first_def)
  have down: "toggleStatus (serve net_down) ''k1'' (page_seed, seed)
      = (page_seed\<lparr>sent := [PATCH_key ''k1'' (no_update\<lparr>upd_status := Some ''revoked''\<rparr>)],
                   console := [''Error toggling status:''],
                   alerts := [''Failed to toggle API key status. Please try again.'']\<rparr>, seed)"
    by (simp add: toggleStatus_def page_eval do_fetch_def serve_def net_down_def succeeded_def
          key_a_def key_b_def key_c_def)
  show ?thesis
    by (simp add: ok down) (simp add: page_eval key_b_def key_c_def)
qed

text \<open>
  C8, amended: create (with a name that is not blank), save (with a record being edited and
  a draft name that is not blank) and a confirmed delete each produce exactly one
  user-visible, auto-dismissing notification, on their success path and on their failure
  path alike, whatever the server answers; with a blank name (white space only, in the
  sense of \<open>trim\<close>) create and save do nothing at all. Rotate and Toggle Status produce
  no such notification: when their request fails they open one \<open>alert\<close> dialog, and when
  it succeeds they show nothing.
\<close>

theorem mutations_and_notifications:
  fixes fetch :: "'b fetch"
  shows "(trim (newName p) \<noteq> [] \<longrightarrow> one_notification p (fst (createKey fetch rand (p, b))))
   \<and> (trim (newName p) = [] \<longrightarrow> createKey fetch rand (p, b) = (p, b))
   \<and> (truthy_string (editingId p) \<and> trim (draft_name (editDraft p)) \<noteq> []
        \<longrightarrow> one_notification p (fst (saveEdit fetch (p, b))))
   \<and> (\<not> truthy_string (editingId p) \<or> trim (draft_name (editDraft p)) = []
        \<longrightarrow> saveEdit fetch (p, b) = (p, b))
   \<and> one_notification p (fst (deleteKey fetch True i (p, b)))
   \<and> toast_log (fst (rotateKey fetch rand i (p, b))) = toast_log p
   \<and> showToast (fst (rotateKey fetch rand i (p, b))) = showToast p
   \<and> toast_log (fst (toggleStatus fetch i (p, b))) = toast_log p
   \<and> showToast (fst (toggleStatus fetch i (p, b))) = showToast p
   \<and> (\<forall>key. find (\<lambda>k. id_key k = i) (keys p) = Some key \<longrightarrow>
         alerts (fst (rotateKey fetch rand i (p, b))) =
           (if succeeded (fst (fetch (PATCH_key i (no_update\<lparr>upd_secret :=
                                        Some (generateSecret rand (environment key)),
                                      upd_last_used := Some (Some (int (clock p)))\<rparr>)) b))
            then alerts p
            else alerts p @ [''Failed to rotate API key. Please try again.''])
         \<and> alerts (fst (toggleStatus fetch i (p, b))) =
           (if succeeded (fst (fetch (PATCH_key i (no_update\<lparr>upd_status :=
                        Some (if status key = ''active'' then ''revoked'' else ''active'')\<rparr>)) b))
            then alerts p
            else alerts p @ [''Failed to toggle API key status. Please try again.'']))"
proof -
  have blank_create: "createKey fetch rand (p, b) = (p, b)" if "trim (newName p) = []"
    using that by (simp add: createKey_def)
  have blank_save: "saveEdit fetch (p, b) = (p, b)"
    if "\<not> truthy_string (editingId p) \<or> trim (draft_name (editDraft p)) = []"
    using that by (auto simp: saveEdit_def)
  show ?thesis
    using blank_create blank_save
    by (simp add: createKey_notifies saveEdit_notifies deleteKey_notifies
          rotateKey_no_toast toggleStatus_no_toast rotateKey_alerts toggleStatus_alerts)
qed

theorem mutations_and_notifications_witness:
  "trim (newName page_create) \<noteq> []
   \<and> one_notification page_create (fst (createKey (serve net_ok) rand_abc (page_create, seed)))
   \<and> one_notification page_create (fst (createKey (serve net_down) rand_abc (page_create, seed)))
   \<and> trim (newName page_blank) = []
   \<and> createKey (serve net_ok) rand_abc (page_blank, seed) = (page_blank, seed)
   \<and> find (\<lambda>k. id_key k = ''k1'') (keys page_create) = Some key_a
   \<and> alerts (fst (toggleStatus (serve net_down) ''k1'' (page_create, seed)))
       = [''Failed to toggle API key status. Please try again.'']"
proof -
  have t: "trim (newName page_create) \<noteq> []"
    by (simp add: page_create_def trim_def is_space_def)
  have u: "trim (newName page_blank) = []"
    by (simp add: page_blank_def trim_def is_space_def)
  have f: "find (\<lambda>k. id_key k = ''k1'') (keys page_create) = Some key_a"
    by (simp add: page_create_def page_eval key_a_def key_b_def key_c_def)
  have d: "\<not> succeeded (fst (serve net_down r seed))" for r
    by (simp add: serve_def net_down_def succeeded_def)
  have a: "alerts page_create = []"
    by (simp add: page_create_def page_eval)
  from mutations_and_notifications [of page_create "serve net_ok" rand_abc seed "''k1''"]
       mutations_and_notifications [of page_create "serve net_down" rand_abc seed "''k1''"]
       mutations_and_notifications [of page_blank "serve net_ok" rand_abc seed "''k1''"]
       t u f d a
  show ?thesis by simp
qed

text \<open>
  C9, evaluated on the code: a notification \<open>A\<close> at time 0 and a notification \<open>B\<close> at
  2000 ms. \<open>B\<close> replaces \<open>A\<close> on display, but the callback that \<open>A\<close> registered is
  still pending: at 3000 ms it hides the toast, one second after \<open>B\<close> appeared, and the
  callback of \<open>B\<close> (due at 5000 ms) is the only one left.
\<close>

theorem toast_hidden_by_earlier_timer:
  "showToast (showToastNotification ''B'' Toast_error
               (elapse 2000 (showToastNotification ''A'' Toast_success initial_page)))
   \<and> toastMessage (showToastNotification ''B'' Toast_error
               (elapse 2000 (showToastNotification ''A'' Toast_success initial_page))) = ''B''
   \<and> \<not> showToast (elapse 1000 (showToastNotification ''B'' Toast_error
               (elapse 2000 (showToastNotification ''A'' Toast_success initial_page))))
   \<and> timers (elapse 1000 (showToastNotification ''B'' Toast_error
               (elapse 2000 (showToastNotification ''A'' Toast_success initial_page)))) = [5000]"
  by (simp add: showToastNotification_def elapse_def initial_page_def Let_def)

section \<open>The key table\<close>

text \<open>
  C10: every row of the key table satisfies the filter selection: its status is the status
  filter unless that is \<open>all\<close>, and its environment is the environment filter unless that
  is \<open>all\<close>, whatever the fetched list holds.
\<close>

theorem table_rows_satisfy_filters:
  "\<forall>k \<in> set (table_rows p).
     (filterStatus p = ''all'' \<or> status k = filterStatus p)
     \<and> (filterEnvironment p = ''all'' \<or> environment k = filterEnvironment p)"
  by (simp add: table_rows_def filteredKeys_def)

theorem table_rows_satisfy_filters_witness:
  "key_a \<in> set (table_rows page_filtered) \<and> key_b \<in> set (keys page_filtered)
   \<and> filterStatus page_filtered = ''active'' \<and> status key_a = filterStatus page_filtered
   \<and> filterEnvironment page_filtered = ''production''
   \<and> environment key_a = filterEnvironment page_filtered"
proof -
  have r: "key_a \<in> set (table_rows page_filtered)" and k: "key_b \<in> set (keys page_filtered)"
    by (simp_all add: table_rows_def filteredKeys_def page_filtered_def page_seed_def
          initial_page_def key_a_def)
  have f: "filterStatus page_filtered = ''active''"
          "filterEnvironment page_filtered = ''production''"
    by (simp_all add: page_filtered_def)
  from table_rows_satisfy_filters [of page_filtered] r
  have "(filterStatus page_filtered = ''all'' \<or> status key_a = filterStatus page_filtered)
      \<and> (filterEnvironment page_filtered = ''all''
          \<or> environment key_a = filterEnvironment page_filtered)"
    by (rule bspec)
  with f r k show ?thesis by simp
qed

end
